theory Spec2Isabelle
  imports Main "HOL-Library.Product_Lexorder"
begin

chapter \<open>The program\<close>

section \<open>Python values\<close>

text \<open>
  A Python \<open>str\<close> is a sequence of Unicode code points; it is modelled as the list of
  these code points (natural numbers), so that the Hebrew constants of
  \<open>selectors.py\<close> are the strings the code compares with. The empty list is the
  empty string, which is the only falsy \<open>str\<close>.
\<close>

type_synonym pystr = "nat list"

text \<open>ASCII text of the theory's own literals, as code points.\<close>

definition ascii :: "string \<Rightarrow> pystr" where
  "ascii s = map of_char s"

text \<open>\<open>sep.join(parts)\<close>.\<close>

fun join :: "pystr \<Rightarrow> pystr list \<Rightarrow> pystr" where
  "join sep [] = []"
| "join sep [x] = x"
| "join sep (x # y # ys) = x @ sep @ join sep (y # ys)"

text \<open>
  The exceptions of the program, all subclasses of \<open>Exception\<close>: \<open>ValueError\<close>,
  a plain \<open>Exception\<close> with its message, and an error raised by the browser driver
  (a Playwright error or timeout).
\<close>

datatype exn = ValueError | Exception string | DriverError

subsection \<open>Character classes\<close>

text \<open>
  The code points \<open>c\<close> with \<open>chr(c).isspace()\<close>: what \<open>str.strip()\<close> and
  \<open>str.split()\<close> remove.
\<close>

definition is_space :: "nat \<Rightarrow> bool" where
  "is_space c \<longleftrightarrow>
     (9 \<le> c \<and> c \<le> 13) \<or> (28 \<le> c \<and> c \<le> 32) \<or> c = 133 \<or> c = 160 \<or> c = 5760
     \<or> (8192 \<le> c \<and> c \<le> 8202) \<or> c = 8232 \<or> c = 8233 \<or> c = 8239 \<or> c = 8287
     \<or> c = 12288"

text \<open>
  The decimal digits of Unicode 14.0 (CPython 3.11), which the regular expression
  \<open>\d\<close> matches on a \<open>str\<close> and \<open>int()\<close> converts: each entry is the code point
  of a digit zero, followed by its digits one to nine.
\<close>

definition decimal_zeros :: "nat list" where
  "decimal_zeros =
     [48, 1632, 1776, 1984, 2406, 2534, 2662, 2790, 2918, 3046, 3174, 3302, 3430, 3558,
      3664, 3792, 3872, 4160, 4240, 6112, 6160, 6470, 6608, 6784, 6800, 6992, 7088,
      7232, 7248, 42528, 43216, 43264, 43472, 43504, 43600, 44016, 65296, 66720, 68912,
      69734, 69872, 69942, 70096, 70384, 70736, 70864, 71248, 71360, 71472, 71904,
      72016, 72784, 73040, 73120, 92768, 92864, 93008, 120782, 120792, 120802, 120812,
      120822, 123200, 123632, 125264, 130032]"

definition decimal_zero_of :: "nat \<Rightarrow> nat option" where
  "decimal_zero_of c = find (\<lambda>z. z \<le> c \<and> c < z + 10) decimal_zeros"

definition is_decimal :: "nat \<Rightarrow> bool" where
  "is_decimal c \<longleftrightarrow> decimal_zero_of c \<noteq> None"

definition decimal_value :: "nat \<Rightarrow> nat" where
  "decimal_value c = (case decimal_zero_of c of Some z \<Rightarrow> c - z | None \<Rightarrow> 0)"

definition in_range :: "nat \<Rightarrow> nat \<Rightarrow> nat \<Rightarrow> bool" where
  "in_range lo hi c \<longleftrightarrow> lo \<le> c \<and> c \<le> hi"

text \<open>\<open>s.strip()\<close>.\<close>

definition strip :: "pystr \<Rightarrow> pystr" where
  "strip s = rev (dropWhile is_space (rev (dropWhile is_space s)))"

text \<open>The number a string of decimal digits denotes.\<close>

definition digits_value :: "pystr \<Rightarrow> nat" where
  "digits_value t = foldl (\<lambda>n c. 10 * n + decimal_value c) 0 t"

text \<open>
  \<open>int(t)\<close> on the text of a regular-expression group: surrounding whitespace is
  dropped, the rest must be decimal digits (signs and underscores, which \<open>int\<close>
  accepts as well, never occur in a group of the date directives).
\<close>

definition py_int :: "pystr \<Rightarrow> exn + nat" where
  "py_int t =
     (let u = strip t
      in if u \<noteq> [] \<and> list_all is_decimal u then Inr (digits_value u) else Inl ValueError)"

section \<open>datetime\<close>

text \<open>
  A naive \<open>datetime\<close>: the date, and the time of day (hour, minute, second and
  microsecond) as one number of microseconds since midnight. Python compares two naive
  datetimes field by field, year first.
\<close>

record datetime =
  year :: nat
  month :: nat
  day :: nat
  micros :: nat

definition dt_key :: "datetime \<Rightarrow> nat \<times> nat \<times> nat \<times> nat" where
  "dt_key d = (year d, month d, day d, micros d)"

definition dt_less :: "datetime \<Rightarrow> datetime \<Rightarrow> bool" where
  "dt_less a b \<longleftrightarrow> dt_key a < dt_key b"

definition is_leap :: "nat \<Rightarrow> bool" where
  "is_leap y \<longleftrightarrow> y mod 4 = 0 \<and> (y mod 100 \<noteq> 0 \<or> y mod 400 = 0)"

definition days_in_month :: "nat \<Rightarrow> nat \<Rightarrow> nat" where
  "days_in_month y m =
     (if m = 2 then (if is_leap y then 29 else 28)
      else if m = 4 \<or> m = 6 \<or> m = 9 \<or> m = 11 then 30 else 31)"

text \<open>The arguments the constructor \<open>datetime(year, month, day)\<close> accepts.\<close>

definition valid_date :: "nat \<Rightarrow> nat \<Rightarrow> nat \<Rightarrow> bool" where
  "valid_date y m d \<longleftrightarrow>
     1 \<le> y \<and> y \<le> 9999 \<and> 1 \<le> m \<and> m \<le> 12 \<and> 1 \<le> d \<and> d \<le> days_in_month y m"

section \<open>datetime.strptime on the date directives\<close>

text \<open>
  A format string of \<open>utils.py\<close> is a sequence of the directives \<open>%d\<close>, \<open>%m\<close>,
  \<open>%Y\<close> and literal characters. \<open>_strptime\<close> turns it into a regular expression,
  each directive a group of alternatives tried in order:
  \<^item> \<open>%d\<close>: \<open>3[0-1]|[1-2]\d|0[1-9]|[1-9]| [1-9]\<close>
  \<^item> \<open>%m\<close>: \<open>1[0-2]|0[1-9]|[1-9]\<close>
  \<^item> \<open>%Y\<close>: \<open>\d\d\d\d\<close>
\<close>

datatype directive = Dir_d | Dir_m | Dir_Y | Lit nat

text \<open>One alternative of two characters, of one character: the matches, each with the rest.\<close>

definition alt2 :: "(nat \<Rightarrow> bool) \<Rightarrow> (nat \<Rightarrow> bool) \<Rightarrow> pystr \<Rightarrow> (pystr \<times> pystr) list" where
  "alt2 P Q s = (case s of a # b # r \<Rightarrow> if P a \<and> Q b then [([a, b], r)] else [] | _ \<Rightarrow> [])"

definition alt1 :: "(nat \<Rightarrow> bool) \<Rightarrow> pystr \<Rightarrow> (pystr \<times> pystr) list" where
  "alt1 P s = (case s of a # r \<Rightarrow> if P a then [([a], r)] else [] | [] \<Rightarrow> [])"

definition group_d :: "pystr \<Rightarrow> (pystr \<times> pystr) list" where
  "group_d s =
     alt2 (\<lambda>a. a = 51) (in_range 48 49) s @ alt2 (in_range 49 50) is_decimal s
     @ alt2 (\<lambda>a. a = 48) (in_range 49 57) s @ alt1 (in_range 49 57) s
     @ alt2 (\<lambda>a. a = 32) (in_range 49 57) s"

definition group_m :: "pystr \<Rightarrow> (pystr \<times> pystr) list" where
  "group_m s =
     alt2 (\<lambda>a. a = 49) (in_range 48 50) s @ alt2 (\<lambda>a. a = 48) (in_range 49 57) s
     @ alt1 (in_range 49 57) s"

definition group_Y :: "pystr \<Rightarrow> (pystr \<times> pystr) list" where
  "group_Y s =
     (case s of
        a # b # c # d # r \<Rightarrow>
          if is_decimal a \<and> is_decimal b \<and> is_decimal c \<and> is_decimal d
          then [([a, b, c, d], r)] else []
      | _ \<Rightarrow> [])"

fun alternatives :: "directive \<Rightarrow> pystr \<Rightarrow> (pystr \<times> pystr) list" where
  "alternatives Dir_d s = group_d s"
| "alternatives Dir_m s = group_m s"
| "alternatives Dir_Y s = group_Y s"
| "alternatives (Lit c) s = (case s of [] \<Rightarrow> [] | x # r \<Rightarrow> if x = c then [([x], r)] else [])"

text \<open>
  \<open>format_regex.match(data_string)\<close>: every way the expression matches a prefix of
  the string, in the order the backtracking matcher finds them, each with the texts of
  its groups and the unmatched rest. The matcher returns the first.
\<close>

fun regex_match :: "directive list \<Rightarrow> pystr \<Rightarrow> ((directive \<times> pystr) list \<times> pystr) list" where
  "regex_match [] s = [([], s)]"
| "regex_match (d # fmt) s =
     concat (map (\<lambda>(tok, r). map (\<lambda>(groups, rest). ((d, tok) # groups, rest)) (regex_match fmt r))
                 (alternatives d s))"

text \<open>The group's number, or the default of \<open>_strptime\<close> when the format has no such group.\<close>

definition group_int :: "(directive \<times> pystr) list \<Rightarrow> directive \<Rightarrow> nat \<Rightarrow> exn + nat" where
  "group_int groups d dflt =
     (case map_of groups d of None \<Rightarrow> Inr dflt | Some t \<Rightarrow> py_int t)"

text \<open>
  \<open>datetime.strptime(data_string, format)\<close>: no match, unconverted data after the
  match and a date the calendar does not have each raise \<open>ValueError\<close>.
\<close>

definition strptime :: "pystr \<Rightarrow> directive list \<Rightarrow> exn + datetime" where
  "strptime data_string fmt =
     (case regex_match fmt data_string of
        [] \<Rightarrow> Inl ValueError
      | (groups, rest) # _ \<Rightarrow>
          if rest \<noteq> [] then Inl ValueError
          else (case (group_int groups Dir_Y 1900, group_int groups Dir_m 1, group_int groups Dir_d 1) of
                  (Inr y, Inr m, Inr d) \<Rightarrow>
                    if valid_date y m d then Inr \<lparr>year = y, month = m, day = d, micros = 0\<rparr>
                    else Inl ValueError
                | _ \<Rightarrow> Inl ValueError))"

section \<open>utils.py: parse_date\<close>

definition date_formats :: "directive list list" where
  "date_formats =
     [[Dir_d, Lit 45, Dir_m, Lit 45, Dir_Y],
      [Dir_d, Lit 47, Dir_m, Lit 47, Dir_Y],
      [Dir_Y, Lit 45, Dir_m, Lit 45, Dir_d],
      [Dir_Y, Lit 47, Dir_m, Lit 47, Dir_d],
      [Dir_d, Lit 46, Dir_m, Lit 46, Dir_Y]]"

text \<open>
  The loop over the formats: the first format that parses returns, a \<open>ValueError\<close>
  moves on to the next format, and after the last format the function raises
  \<open>ValueError\<close> itself.
\<close>

fun try_formats :: "pystr \<Rightarrow> directive list list \<Rightarrow> exn + datetime" where
  "try_formats date_str [] = Inl ValueError"
| "try_formats date_str (fmt # fmts) =
     (case strptime (strip date_str) fmt of
        Inr d \<Rightarrow> Inr d
      | Inl ValueError \<Rightarrow> try_formats date_str fmts
      | Inl e \<Rightarrow> Inl e)"

definition parse_date :: "pystr option \<Rightarrow> exn + datetime option" where
  "parse_date date_str =
     (case date_str of
        None \<Rightarrow> Inr None
      | Some s \<Rightarrow> (case try_formats s date_formats of Inl e \<Rightarrow> Inl e | Inr d \<Rightarrow> Inr (Some d)))"

subsection \<open>The supported formats, as the specification words them\<close>

text \<open>
  The text at a separator's occurrences, as \<open>str.split(sep)\<close> cuts it.
\<close>

fun split_on :: "nat \<Rightarrow> pystr \<Rightarrow> pystr list" where
  "split_on c [] = [[]]"
| "split_on c (x # xs) =
     (if x = c then [] # split_on c xs
      else (case split_on c xs of [] \<Rightarrow> [[x]] | p # ps \<Rightarrow> (x # p) # ps))"

text \<open>
  A day or month field is one or two decimal digits (a single digit may have a space
  in front, where \<open>strptime\<close> reads a space-padded day); a year field is four decimal
  digits. The value of a field is the number its digits denote.
\<close>

definition short_field :: "pystr \<Rightarrow> bool" where
  "short_field t \<longleftrightarrow>
     (case t of
        [a] \<Rightarrow> is_decimal a
      | [a, b] \<Rightarrow> (is_decimal a \<or> a = 32) \<and> is_decimal b
      | _ \<Rightarrow> False)"

definition year_field :: "pystr \<Rightarrow> bool" where
  "year_field t \<longleftrightarrow> length t = 4 \<and> list_all is_decimal t"

definition field_value :: "pystr \<Rightarrow> nat" where
  "field_value t = digits_value (dropWhile (\<lambda>c. c = 32) t)"

datatype field_order = DMY | YMD

text \<open>
  The five supported formats: DD-MM-YYYY, DD/MM/YYYY, YYYY-MM-DD, YYYY/MM/DD and
  DD.MM.YYYY, each an order of the fields and a separator.
\<close>

definition supported_formats :: "(field_order \<times> nat) list" where
  "supported_formats = [(DMY, 45), (DMY, 47), (YMD, 45), (YMD, 47), (DMY, 46)]"

text \<open>
  A text is the date \<open>(y, m, d)\<close> in a format when the separator cuts it into three
  fields of the format's order that denote \<open>y\<close>, \<open>m\<close> and \<open>d\<close>, and the calendar
  has that date.
\<close>

fun date_in_format :: "field_order \<times> nat \<Rightarrow> pystr \<Rightarrow> (nat \<times> nat \<times> nat) option" where
  "date_in_format (ord, sep) t =
     (case split_on sep t of
        [f1, f2, f3] \<Rightarrow>
          (let (df, mf, yf) = (case ord of DMY \<Rightarrow> (f1, f2, f3) | YMD \<Rightarrow> (f3, f2, f1))
           in if short_field df \<and> short_field mf \<and> year_field yf
                 \<and> valid_date (field_value yf) (field_value mf) (field_value df)
              then Some (field_value yf, field_value mf, field_value df) else None)
      | _ \<Rightarrow> None)"

definition supported_date_text :: "pystr \<Rightarrow> bool" where
  "supported_date_text t \<longleftrightarrow> list_ex (\<lambda>f. date_in_format f t \<noteq> None) supported_formats"

text \<open>
  The rendering of a date in a format: the day and the month zero-padded to two
  digits, the year to four.
\<close>

definition pad2 :: "nat \<Rightarrow> pystr" where
  "pad2 n = [48 + n div 10 mod 10, 48 + n mod 10]"

definition pad4 :: "nat \<Rightarrow> pystr" where
  "pad4 n = [48 + n div 1000 mod 10, 48 + n div 100 mod 10, 48 + n div 10 mod 10, 48 + n mod 10]"

fun render :: "field_order \<times> nat \<Rightarrow> datetime \<Rightarrow> pystr" where
  "render (DMY, sep) dt = pad2 (day dt) @ [sep] @ pad2 (month dt) @ [sep] @ pad4 (year dt)"
| "render (YMD, sep) dt = pad4 (year dt) @ [sep] @ pad2 (month dt) @ [sep] @ pad2 (day dt)"

section \<open>selectors.py: TextPatterns\<close>

definition NO_HOMEWORK_PLACEHOLDER :: pystr where
  "NO_HOMEWORK_PLACEHOLDER = [1488, 1497, 1503]"

definition EMPTY_LESSON_PLACEHOLDER :: pystr where
  "EMPTY_LESSON_PLACEHOLDER = [45, 45, 45]"

section \<open>extractor.py: combining lesson topic and homework\<close>

text \<open>
  \<open>_combine_content\<close>: the list \<open>combined_content\<close> receives the lesson topic, then
  the homework, each under its own test, and is joined with \<open>" | "\<close> (code points
  32, 124, 32).
\<close>

definition combine_content :: "pystr \<Rightarrow> pystr \<Rightarrow> pystr" where
  "combine_content lesson_topic homework =
     (let combined_content = [];
          combined_content =
            (if lesson_topic \<noteq> [] \<and> lesson_topic \<notin> set [EMPTY_LESSON_PLACEHOLDER, []]
             then combined_content @ [lesson_topic] else combined_content);
          combined_content =
            (if homework \<noteq> [] \<and> homework \<notin> set [[45, 45], NO_HOMEWORK_PLACEHOLDER, []]
             then combined_content @ [homework] else combined_content)
      in if combined_content \<noteq> [] then join [32, 124, 32] combined_content else [])"

text \<open>
  The spec's reading of a placeholder: one set, the "no homework" and the "empty
  lesson" marker, for either argument.
\<close>

definition recognized_placeholder :: "pystr \<Rightarrow> bool" where
  "recognized_placeholder t \<longleftrightarrow> t = NO_HOMEWORK_PLACEHOLDER \<or> t = EMPTY_LESSON_PLACEHOLDER"

text \<open>What the code omits on each side.\<close>

definition lesson_omitted :: "pystr \<Rightarrow> bool" where
  "lesson_omitted t \<longleftrightarrow> t = [] \<or> t = EMPTY_LESSON_PLACEHOLDER"

definition homework_omitted :: "pystr \<Rightarrow> bool" where
  "homework_omitted t \<longleftrightarrow> t = [] \<or> t = [45, 45] \<or> t = NO_HOMEWORK_PLACEHOLDER"

section \<open>The browser driver\<close>

text \<open>
  The browser page is an external collaborator. Its state is a value of an arbitrary
  type \<open>'s\<close>; every operation the code awaits on the page or on a locator takes the
  state and returns its outcome (an exception of the driver or a value) and the
  next state. Nothing is assumed about the operations: the page may answer anything
  at any time.
\<close>

datatype direction = Forward | Backward

text \<open>
  The selector strings of \<open>selectors.py\<close> and of the modules are opaque to the
  program; each is named by the constant that holds it. The navigation buttons have a
  list of selectors per direction, named by their position in the list; a selector
  built from the date carries the date string.
\<close>

datatype selector =
    DATE_HEADING | APP_TOOL_BAR | FORWARD_BUTTON nat | BACKWARD_BUTTON nat
  | TABLE_BODY_ROWS | TABLE_CELLS | SUBJECT_BUTTON | FILE_LINKS | FILE_IMAGES
  | TABLE_ARIA_LABEL pystr | TABLE_SELECTOR | MAT_CARD | HEADING_HAS_TEXT pystr | DIV_ROLE_TABLE
  | USERNAME_SELECTOR nat | PASSWORD_SELECTOR nat | USERNAME_ROLE | PASSWORD_ROLE
  | LOGIN_BUTTON_SUBMIT | LOGIN_BUTTON_TEXT | LOGIN_BUTTON_ROLE | FORM | MOE_BUTTON
  | COOKIE_BUTTON | XPATH_PARENT | XPATH_TABLIST_ANCESTOR
  | TAB_ROLE | TAB_SELECTOR | USERNAME_PASSWORD_TAB_ROLE | BODY | ERROR_TEXT_REGEX pystr
  | ERROR_TEXT pystr | RECAPTCHA_IFRAME | DASHBOARD_INDICATOR nat
  | STUDENT_CARD_SELECTOR nat | HOMEWORK_SELECTOR nat | PAGE_CONTENT

text \<open>
  A locator is a description of elements: \<open>page.locator(sel)\<close>, \<open>loc.first\<close>,
  \<open>loc.nth(i)\<close>, \<open>loc.locator(sel)\<close> and \<open>page.get_by_role(...)\<close>.
\<close>

datatype locator =
    Locator selector | First locator | Nth locator nat | Inside locator selector
  | By_role selector

datatype action =
    Start_playwright | Stop_playwright | Launch_browser nat | New_context | New_page
  | Add_init_script | Close_context | Close_browser
  | Goto pystr | Reload | Click locator bool | Fill locator pystr
  | Scroll_window | Scroll_into_view locator | Screenshot

datatype wait = Load_state | Url | Visible locator | For_selector selector | Timeout

text \<open>
  The trace of a run: the actions performed on the browser, in order, and two marks
  of the pagination search, the page it enters into its visited set (with the
  direction of the search at that moment) and the clearing of that set.
\<close>

datatype event = Did action | Visit pystr direction | Cleared

record 's driver =
  pw_url :: "'s \<Rightarrow> pystr"
  pw_perform :: "action \<Rightarrow> 's \<Rightarrow> (exn + unit) \<times> 's"
  pw_wait :: "wait \<Rightarrow> 's \<Rightarrow> (exn + unit) \<times> 's"
  pw_count :: "locator \<Rightarrow> 's \<Rightarrow> (exn + nat) \<times> 's"
  pw_is_visible :: "locator \<Rightarrow> 's \<Rightarrow> (exn + bool) \<times> 's"
  pw_get_attribute :: "locator \<Rightarrow> string \<Rightarrow> 's \<Rightarrow> (exn + pystr option) \<times> 's"
  pw_text_content :: "locator \<Rightarrow> 's \<Rightarrow> (exn + pystr option) \<times> 's"
  pw_title :: "'s \<Rightarrow> (exn + pystr) \<times> 's"
  pw_get_by_role :: "selector \<Rightarrow> 's \<Rightarrow> (exn + locator) \<times> 's"
  pw_element_handle :: "locator \<Rightarrow> 's \<Rightarrow> (exn + bool) \<times> 's"
  pw_sleep :: "'s \<Rightarrow> 's"
  pw_time :: "'s \<Rightarrow> nat"

subsection \<open>Computations on the page\<close>

text \<open>
  An awaited computation takes the page state and gives its result, raised or
  returned, the next state and the events it added to the trace.
\<close>

type_synonym ('s, 'a) io = "'s \<Rightarrow> (exn + 'a) \<times> 's \<times> event list"

definition io_return :: "'a \<Rightarrow> ('s, 'a) io" where
  "io_return x s = (Inr x, s, [])"

definition io_raise :: "exn \<Rightarrow> ('s, 'a) io" where
  "io_raise e s = (Inl e, s, [])"

definition io_bind :: "('s, 'a) io \<Rightarrow> ('a \<Rightarrow> ('s, 'b) io) \<Rightarrow> ('s, 'b) io" where
  "io_bind m f s =
     (case m s of
        (Inl e, s', t) \<Rightarrow> (Inl e, s', t)
      | (Inr x, s', t) \<Rightarrow> (case f x s' of (r, s'', t') \<Rightarrow> (r, s'', t @ t')))"

definition io_seq :: "('s, 'a) io \<Rightarrow> ('s, 'b) io \<Rightarrow> ('s, 'b) io" where
  "io_seq m k = io_bind m (\<lambda>_. k)"

text \<open>\<open>try: m  except Exception as e: h e\<close>.\<close>

definition io_try :: "('s, 'a) io \<Rightarrow> (exn \<Rightarrow> ('s, 'a) io) \<Rightarrow> ('s, 'a) io" where
  "io_try m h s =
     (case m s of
        (Inl e, s', t) \<Rightarrow> (case h e s' of (r, s'', t') \<Rightarrow> (r, s'', t @ t'))
      | (Inr x, s', t) \<Rightarrow> (Inr x, s', t))"

text \<open>\<open>try: m  except Exception: pass\<close>.\<close>

definition io_attempt :: "('s, 'a) io \<Rightarrow> ('s, unit) io" where
  "io_attempt m = io_try (io_seq m (io_return ())) (\<lambda>e. io_return ())"

definition note_event :: "event \<Rightarrow> ('s, unit) io" where
  "note_event ev s = (Inr (), s, [ev])"

text \<open>The operations of the driver as computations; an action leaves its event.\<close>

definition perform :: "'s driver \<Rightarrow> action \<Rightarrow> ('s, unit) io" where
  "perform drv a s = (case pw_perform drv a s of (r, s') \<Rightarrow> (r, s', [Did a]))"

definition await :: "'s driver \<Rightarrow> wait \<Rightarrow> ('s, unit) io" where
  "await drv x s = (case pw_wait drv x s of (r, s') \<Rightarrow> (r, s', []))"

definition count :: "'s driver \<Rightarrow> locator \<Rightarrow> ('s, nat) io" where
  "count drv loc s = (case pw_count drv loc s of (r, s') \<Rightarrow> (r, s', []))"

definition is_visible :: "'s driver \<Rightarrow> locator \<Rightarrow> ('s, bool) io" where
  "is_visible drv loc s = (case pw_is_visible drv loc s of (r, s') \<Rightarrow> (r, s', []))"

definition get_attribute :: "'s driver \<Rightarrow> locator \<Rightarrow> string \<Rightarrow> ('s, pystr option) io" where
  "get_attribute drv loc name s =
     (case pw_get_attribute drv loc name s of (r, s') \<Rightarrow> (r, s', []))"

definition text_content :: "'s driver \<Rightarrow> locator \<Rightarrow> ('s, pystr option) io" where
  "text_content drv loc s = (case pw_text_content drv loc s of (r, s') \<Rightarrow> (r, s', []))"

text \<open>
  \<open>page.url\<close>, \<open>asyncio.sleep\<close> and the clock of the event loop, in milliseconds.
  While the program sleeps the page may move on; a sleep is written where the
  program reads the address of the page next, and left out before an operation of the
  driver, which answers from any state as it is.
\<close>

definition page_url :: "'s driver \<Rightarrow> ('s, pystr) io" where
  "page_url drv s = (Inr (pw_url drv s), s, [])"

definition sleep :: "'s driver \<Rightarrow> ('s, unit) io" where
  "sleep drv s = (Inr (), pw_sleep drv s, [])"

definition clock :: "'s driver \<Rightarrow> ('s, nat) io" where
  "clock drv s = (Inr (pw_time drv s), s, [])"

definition title :: "'s driver \<Rightarrow> ('s, pystr) io" where
  "title drv s = (case pw_title drv s of (r, s') \<Rightarrow> (r, s', []))"

definition get_by_role :: "'s driver \<Rightarrow> selector \<Rightarrow> ('s, locator) io" where
  "get_by_role drv role s = (case pw_get_by_role drv role s of (r, s') \<Rightarrow> (r, s', []))"

text \<open>\<open>loc.element_handle()\<close>: whether an element was resolved.\<close>

definition element_handle :: "'s driver \<Rightarrow> locator \<Rightarrow> ('s, bool) io" where
  "element_handle drv loc s = (case pw_element_handle drv loc s of (r, s') \<Rightarrow> (r, s', []))"

text \<open>\<open>loc.all()\<close>: the locators \<open>loc.nth(i)\<close> of the elements counted.\<close>

definition all_of :: "'s driver \<Rightarrow> locator \<Rightarrow> ('s, locator list) io" where
  "all_of drv loc = io_bind (count drv loc) (\<lambda>n. io_return (map (Nth loc) [0..<n]))"

text \<open>The truth value of an optional string, and its text.\<close>

definition truthy :: "pystr option \<Rightarrow> bool" where
  "truthy t \<longleftrightarrow> (case t of None \<Rightarrow> False | Some u \<Rightarrow> u \<noteq> [])"

definition str_of :: "pystr option \<Rightarrow> pystr" where
  "str_of t = (case t of None \<Rightarrow> [] | Some u \<Rightarrow> u)"

text \<open>\<open>t in s\<close> on strings.\<close>

fun contains :: "pystr \<Rightarrow> pystr \<Rightarrow> bool" where
  "contains t [] \<longleftrightarrow> t = []"
| "contains t (x # xs) \<longleftrightarrow> take (length t) (x # xs) = t \<or> contains t xs"

section \<open>config.py\<close>

definition MAX_PAGINATION_PAGES :: nat where
  "MAX_PAGINATION_PAGES = 100"

section \<open>pagination.py\<close>

text \<open>
  \<open>target_date.strftime(Selectors.DATE_FORMAT_DISPLAY)\<close>, the format
  \<open>"%d/%m/%Y"\<close> (for a year from 1000 on; below, the padding of \<open>%Y\<close> is the C
  library's).
\<close>

definition strftime_display :: "datetime \<Rightarrow> pystr" where
  "strftime_display d = render (DMY, 47) d"

subsection \<open>find_date_on_page\<close>

fun find_in_headings :: "'s driver \<Rightarrow> pystr \<Rightarrow> locator list \<Rightarrow> ('s, bool) io" where
  "find_in_headings drv target_date_str [] = io_return False"
| "find_in_headings drv target_date_str (heading # headings) =
     io_seq (io_attempt (io_seq (perform drv (Scroll_into_view heading)) (await drv Timeout)))
       (io_bind (text_content drv heading) (\<lambda>heading_text.
          if truthy heading_text \<and> contains target_date_str (str_of heading_text)
          then io_return True
          else find_in_headings drv target_date_str headings))"

definition find_date_on_page :: "'s driver \<Rightarrow> pystr \<Rightarrow> ('s, bool) io" where
  "find_date_on_page drv target_date_str =
     io_try
       (io_seq (await drv Load_state)
       (io_seq (perform drv Scroll_window)
       (io_seq (await drv Timeout)
       (io_seq (perform drv Scroll_window)
       (io_seq (await drv Timeout)
       (io_seq (io_attempt (await drv (For_selector DATE_HEADING)))
       (io_bind (all_of drv (Locator DATE_HEADING))
          (find_in_headings drv target_date_str))))))))
       (\<lambda>e. io_return False)"

subsection \<open>get_dates_on_page\<close>

text \<open>
  \<open>re.search(Selectors.DATE_REGEX_PATTERN, heading_text)\<close> with the pattern
  \<open>(\d{2})/(\d{2})/(\d{4})\<close>: the groups of the leftmost match.
\<close>

fun date_search :: "pystr \<Rightarrow> (pystr \<times> pystr \<times> pystr) option" where
  "date_search [] = None"
| "date_search (x # xs) =
     (case x # xs of
        a # b # c # d # e # f # g # h # i # j # _ \<Rightarrow>
          if is_decimal a \<and> is_decimal b \<and> c = 47 \<and> is_decimal d \<and> is_decimal e \<and> f = 47
             \<and> is_decimal g \<and> is_decimal h \<and> is_decimal i \<and> is_decimal j
          then Some ([a, b], [d, e], [g, h, i, j])
          else date_search xs
      | _ \<Rightarrow> date_search xs)"

text \<open>
  The date of a heading: \<open>datetime(int(year), int(month), int(day))\<close> of the
  groups; a heading without a match, and a \<open>ValueError\<close> of the constructor, give
  no date.
\<close>

definition heading_date :: "pystr option \<Rightarrow> datetime list" where
  "heading_date heading_text =
     (if truthy heading_text then
        (case date_search (str_of heading_text) of
           None \<Rightarrow> []
         | Some (day_text, month_text, year_text) \<Rightarrow>
             (case (py_int year_text, py_int month_text, py_int day_text) of
                (Inr y, Inr m, Inr d) \<Rightarrow>
                  if valid_date y m d then [\<lparr>year = y, month = m, day = d, micros = 0\<rparr>] else []
              | _ \<Rightarrow> []))
      else [])"

text \<open>
  The loop over the headings appends to \<open>dates\<close>; an exception leaves the loop and
  keeps what was appended.
\<close>

fun collect_dates :: "'s driver \<Rightarrow> locator list \<Rightarrow> datetime list \<Rightarrow> 's
    \<Rightarrow> datetime list \<times> 's \<times> event list" where
  "collect_dates drv [] dates s = (dates, s, [])"
| "collect_dates drv (heading # headings) dates s =
     (case io_attempt (io_seq (perform drv (Scroll_into_view heading)) (await drv Timeout)) s of
        (_, s1, t1) \<Rightarrow>
          (case text_content drv heading s1 of
             (Inl e, s2, t2) \<Rightarrow> (dates, s2, t1 @ t2)
           | (Inr heading_text, s2, t2) \<Rightarrow>
               (case collect_dates drv headings (dates @ heading_date heading_text) s2 of
                  (ds, s3, t3) \<Rightarrow> (ds, s3, t1 @ t2 @ t3))))"

definition get_dates_on_page :: "'s driver \<Rightarrow> ('s, datetime list) io" where
  "get_dates_on_page drv s =
     (case (io_seq (await drv Load_state)
           (io_seq (perform drv Scroll_window)
           (io_seq (await drv Timeout)
           (io_seq (io_attempt (await drv (For_selector DATE_HEADING)))
              (all_of drv (Locator DATE_HEADING)))))) s of
        (Inl e, s1, t1) \<Rightarrow> (Inr (sort_key dt_key []), s1, t1)
      | (Inr headings, s1, t1) \<Rightarrow>
          (case collect_dates drv headings [] s1 of
             (dates, s2, t2) \<Rightarrow> (Inr (sort_key dt_key dates), s2, t1 @ t2)))"

subsection \<open>_find_navigation_button\<close>

text \<open>
  The selectors tried for a direction, in their order: nineteen for the next week,
  twenty-three for the previous week.
\<close>

definition button_selectors :: "direction \<Rightarrow> selector list" where
  "button_selectors direction =
     (if direction = Forward then map FORWARD_BUTTON [0..<19] else map BACKWARD_BUTTON [0..<23])"

text \<open>
  The body of the \<open>try\<close> for one selector: the button when it exists, is visible and
  is not marked as disabled by its \<open>disabled\<close> attribute, by \<open>aria-disabled\<close> or
  by the class \<open>empty\<close>.
\<close>

definition probe_button :: "'s driver \<Rightarrow> locator \<Rightarrow> ('s, locator option) io" where
  "probe_button drv btn =
     io_bind (count drv btn) (\<lambda>n.
       if n > 0 then
         io_bind (is_visible drv btn) (\<lambda>visible.
         io_bind (get_attribute drv btn ''disabled'') (\<lambda>is_disabled.
         io_bind (get_attribute drv btn ''aria-disabled'') (\<lambda>aria_disabled.
         io_bind (io_try
                    (io_bind (get_attribute drv btn ''class'') (\<lambda>class_attr.
                       io_return (truthy class_attr \<and> contains (ascii ''empty'') (str_of class_attr))))
                    (\<lambda>e. io_return False)) (\<lambda>has_empty_class.
           if visible \<and> \<not> truthy is_disabled \<and> aria_disabled \<noteq> Some (ascii ''true'')
              \<and> \<not> has_empty_class
           then io_return (Some btn) else io_return None))))
       else io_return None)"

fun try_button_selectors :: "'s driver \<Rightarrow> selector list \<Rightarrow> ('s, locator option) io" where
  "try_button_selectors drv [] = io_return None"
| "try_button_selectors drv (selector # selectors) =
     io_bind (io_try (probe_button drv (First (Locator selector))) (\<lambda>e. io_return None))
       (\<lambda>found. case found of
                   Some btn \<Rightarrow> io_return (Some btn)
                 | None \<Rightarrow> try_button_selectors drv selectors)"

definition find_navigation_button :: "'s driver \<Rightarrow> direction \<Rightarrow> ('s, locator option) io" where
  "find_navigation_button drv direction =
     io_seq (io_attempt
               (io_seq (perform drv Scroll_window)
               (io_seq (await drv Timeout)
                  (io_attempt (await drv (For_selector APP_TOOL_BAR))))))
       (try_button_selectors drv (button_selectors direction))"

subsection \<open>_click_navigation_button\<close>

text \<open>
  The click, forced when the plain click raises, the wait for the page, the check for
  the target date and the dates now on the page; any exception turns the direction
  around. The result is the pair \<open>(found, direction)\<close>. (The argument
  \<open>pages_checked\<close> of the source is only logged.)
\<close>

definition click_navigation_button ::
    "'s driver \<Rightarrow> locator \<Rightarrow> direction \<Rightarrow> datetime \<Rightarrow> ('s, bool \<times> direction) io" where
  "click_navigation_button drv nav_button direction target_date =
     io_try
       (io_seq (perform drv (Scroll_into_view nav_button))
       (io_seq (await drv Timeout)
       (io_seq (await drv (Visible nav_button))
       (io_seq (io_try (perform drv (Click nav_button False))
                  (\<lambda>click_error. perform drv (Click nav_button True)))
       (io_seq (await drv Load_state)
       (io_bind (find_date_on_page drv (strftime_display target_date)) (\<lambda>found.
          if found then io_return (True, direction)
          else
            io_bind (get_dates_on_page drv) (\<lambda>new_dates.
              io_return
                (False,
                 if new_dates \<noteq> [] then
                   (if dt_less target_date (hd new_dates) \<and> direction = Forward then Backward
                    else if dt_less (last new_dates) target_date \<and> direction = Backward
                    then Forward
                    else direction)
                 else direction)))))))))
       (\<lambda>e. io_return (False, if direction = Forward then Backward else Forward))"

subsection \<open>navigate_to_date_page\<close>

text \<open>
  How the part of a pass through the \<open>while\<close> loop after
  \<open>visited_pages.add(current_url)\<close> ends: with \<open>return\<close>, with \<open>break\<close>, with
  a new direction (and \<open>visited_pages.clear()\<close>), or going on to the next pass.
\<close>

datatype step = Return bool | Break | Turn direction | Go_on

definition search_step :: "'s driver \<Rightarrow> datetime \<Rightarrow> direction \<Rightarrow> ('s, step) io" where
  "search_step drv target_date direction =
     io_bind (find_navigation_button drv direction) (\<lambda>nav_button.
     io_seq (await drv Load_state)
    (io_bind (find_date_on_page drv (strftime_display target_date)) (\<lambda>found.
       if found then io_return (Return True)
       else
         (case nav_button of
            Some button \<Rightarrow>
              io_bind (click_navigation_button drv button direction target_date)
                (\<lambda>(found, new_direction).
                   if found then io_return (Return True)
                   else if new_direction \<noteq> direction then io_return (Turn new_direction)
                   else io_return Go_on)
          | None \<Rightarrow>
              if direction = Forward then io_return (Turn Backward) else io_return Break))))"

text \<open>
  The \<open>while pages_checked < max_pages\<close> loop; leaving it, by \<open>break\<close> or by the
  bound, returns \<open>False\<close>. The trace is marked where the loop adds the page to its
  visited set and where it clears the set.
\<close>

function nav_loop ::
    "'s driver \<Rightarrow> datetime \<Rightarrow> nat \<Rightarrow> direction \<Rightarrow> pystr set \<Rightarrow> ('s, bool) io" where
  "nav_loop drv target_date pages_checked direction visited_pages s =
     (if pages_checked < MAX_PAGINATION_PAGES then
        (let current_url = pw_url drv s in
         if current_url \<in> visited_pages then
           (if direction = Forward then
              (case nav_loop drv target_date (pages_checked + 1) Backward {} s of
                 (r, s', t) \<Rightarrow> (r, s', Cleared # t))
            else (Inr False, s, []))
         else
           (case search_step drv target_date direction s of
              (Inl e, s', t) \<Rightarrow> (Inl e, s', Visit current_url direction # t)
            | (Inr (Return b), s', t) \<Rightarrow> (Inr b, s', Visit current_url direction # t)
            | (Inr Break, s', t) \<Rightarrow> (Inr False, s', Visit current_url direction # t)
            | (Inr (Turn new_direction), s', t) \<Rightarrow>
                (case nav_loop drv target_date (pages_checked + 1) new_direction {} s' of
                   (r, s'', t') \<Rightarrow> (r, s'', Visit current_url direction # t @ Cleared # t'))
            | (Inr Go_on, s', t) \<Rightarrow>
                (case nav_loop drv target_date (pages_checked + 1) direction
                        (insert current_url visited_pages) s' of
                   (r, s'', t') \<Rightarrow> (r, s'', Visit current_url direction # t @ t'))))
      else (Inr False, s, []))"
  by pat_completeness auto
termination
  by (relation "measure (\<lambda>(drv, target_date, pages_checked, direction, visited_pages, s).
        MAX_PAGINATION_PAGES - pages_checked)") auto

definition navigate_to_date_page :: "'s driver \<Rightarrow> datetime \<Rightarrow> ('s, bool) io" where
  "navigate_to_date_page drv target_date =
     io_bind (find_date_on_page drv (strftime_display target_date)) (\<lambda>found.
       if found then io_return True
       else
         io_bind (get_dates_on_page drv) (\<lambda>current_dates.
           if current_dates \<noteq> [] then
             (if dt_less target_date (hd current_dates)
              then nav_loop drv target_date 0 Backward {}
              else if dt_less (last current_dates) target_date
              then nav_loop drv target_date 0 Forward {}
              else io_return False)
           else nav_loop drv target_date 0 Forward {}))"

section \<open>extractor.py: extraction\<close>

subsection \<open>Strings\<close>

text \<open>\<open>s.split()\<close>: the words between runs of whitespace.\<close>

fun split_words :: "pystr \<Rightarrow> pystr \<Rightarrow> pystr list" where
  "split_words w [] = (if w = [] then [] else [w])"
| "split_words w (c # cs) =
     (if is_space c then (if w = [] then split_words [] cs else w # split_words [] cs)
      else split_words (w @ [c]) cs)"

definition py_split :: "pystr \<Rightarrow> pystr list" where
  "py_split s = split_words [] s"

text \<open>\<open>s.replace(old, "")\<close>: the occurrences of \<open>old\<close> are removed from left to right.\<close>

function remove_all :: "pystr \<Rightarrow> pystr \<Rightarrow> pystr" where
  "remove_all old s =
     (if old = [] \<or> s = [] then s
      else if take (length old) s = old then remove_all old (drop (length old) s)
      else hd s # remove_all old (tl s))"
  by pat_completeness auto
termination
  by (relation "measure (\<lambda>(old, s). length s)") auto

text \<open>
  The labels of the lesson-topic cell and of the homework cell (Hebrew, each ending
  with a colon), as code points.
\<close>

definition LESSON_TOPIC_LABEL :: pystr where
  "LESSON_TOPIC_LABEL = [1504, 1493, 1513, 1488, 32, 1513, 1497, 1506, 1493, 1512, 58]"

definition HOMEWORK_LABEL :: pystr where
  "HOMEWORK_LABEL = [1513, 1497, 1506, 1493, 1512, 1497, 32, 1489, 1497, 1514, 58]"

subsection \<open>Records\<close>

datatype file_ref = Link pystr pystr | Image pystr pystr

record homework_item =
  hour :: pystr
  subject :: pystr
  teacher :: pystr
  lesson_topic :: pystr
  homework :: pystr
  combined :: pystr
  status :: pystr
  attached_files :: "file_ref list"
  date :: pystr

subsection \<open>_extract_cell_text\<close>

text \<open>
  The text of a cell: whitespace collapsed, the two labels removed, trimmed, and the
  tokens \<open>"-`"\<close>, \<open>"-"\<close>, \<open>"`"\<close> and \<open>"--"\<close> read as the empty string.
\<close>

definition clean_cell_text :: "pystr option \<Rightarrow> pystr" where
  "clean_cell_text text =
     (if truthy text then
        (let t = join [32] (py_split (str_of text));
             t = strip (remove_all HOMEWORK_LABEL (remove_all LESSON_TOPIC_LABEL t))
         in if t \<in> set [[45, 96], [45], [96], [45, 45]] then [] else t)
      else [])"

definition extract_cell_text :: "'s driver \<Rightarrow> locator \<Rightarrow> ('s, pystr) io" where
  "extract_cell_text drv cell =
     io_try (io_bind (text_content drv cell) (\<lambda>text. io_return (clean_cell_text text)))
       (\<lambda>e. io_return [])"

subsection \<open>_extract_subject\<close>

definition extract_subject :: "'s driver \<Rightarrow> locator \<Rightarrow> ('s, pystr) io" where
  "extract_subject drv subject_cell =
     io_try
       (io_bind (count drv (First (Inside subject_cell SUBJECT_BUTTON))) (\<lambda>n.
        io_bind (if n > 0 then text_content drv (First (Inside subject_cell SUBJECT_BUTTON))
                 else io_return None) (\<lambda>button_text.
          if truthy button_text then io_return (strip (str_of button_text))
          else
            io_bind (text_content drv subject_cell) (\<lambda>subject_text.
              if truthy subject_text then io_return (strip (str_of subject_text))
              else io_return []))))
       (\<lambda>e. io_return [])"

subsection \<open>_extract_attached_files\<close>

text \<open>
  The loops over the links and over the images append to \<open>attached_files\<close>; the body
  of each pass is a \<open>try\<close> of its own. An exception of \<open>.all()\<close> ends the function
  with what was appended so far.
\<close>

fun collect_links :: "'s driver \<Rightarrow> locator list \<Rightarrow> file_ref list \<Rightarrow> ('s, file_ref list) io" where
  "collect_links drv [] attached = io_return attached"
| "collect_links drv (link # links) attached =
     io_bind
       (io_try
          (io_bind (get_attribute drv link ''href'') (\<lambda>href.
           io_bind (text_content drv link) (\<lambda>text_content.
             io_return
               (if truthy href
                then [Link (str_of href)
                        (if truthy text_content then strip (str_of text_content) else [])]
                else []))))
          (\<lambda>e. io_return []))
       (\<lambda>new. collect_links drv links (attached @ new))"

fun collect_images :: "'s driver \<Rightarrow> locator list \<Rightarrow> file_ref list \<Rightarrow> ('s, file_ref list) io" where
  "collect_images drv [] attached = io_return attached"
| "collect_images drv (img # imgs) attached =
     io_bind
       (io_try
          (io_bind (get_attribute drv img ''src'') (\<lambda>src.
           io_bind (get_attribute drv img ''alt'') (\<lambda>alt_attr.
             io_return
               (if truthy src
                then [Image (str_of src) (if truthy alt_attr then strip (str_of alt_attr) else [])]
                else []))))
          (\<lambda>e. io_return []))
       (\<lambda>new. collect_images drv imgs (attached @ new))"

definition extract_attached_files :: "'s driver \<Rightarrow> locator \<Rightarrow> ('s, file_ref list) io" where
  "extract_attached_files drv file_cell =
     io_try
       (io_bind (all_of drv (Inside file_cell FILE_LINKS)) (\<lambda>file_links.
        io_bind (collect_links drv file_links []) (\<lambda>attached.
          io_try
            (io_bind (all_of drv (Inside file_cell FILE_IMAGES)) (\<lambda>file_imgs.
               collect_images drv file_imgs attached))
            (\<lambda>e. io_return attached))))
       (\<lambda>e. io_return [])"

subsection \<open>_extract_table_data\<close>

text \<open>The record of a row, appended only \<open>if subject\<close>.\<close>

definition make_item ::
    "pystr \<Rightarrow> pystr \<Rightarrow> pystr \<Rightarrow> pystr \<Rightarrow> pystr \<Rightarrow> pystr \<Rightarrow> pystr \<Rightarrow> file_ref list
     \<Rightarrow> homework_item list" where
  "make_item target_date_str hour_text subject_text teacher_text status_text topic homework_text files =
     (if subject_text \<noteq> [] then
        [\<lparr>hour = hour_text, subject = subject_text, teacher = teacher_text, lesson_topic = topic,
          homework = homework_text, combined = combine_content topic homework_text,
          status = status_text, attached_files = files, date = target_date_str\<rparr>]
      else [])"

text \<open>The body of the loop for the cells of one row: the records it appends.\<close>

definition row_items :: "'s driver \<Rightarrow> pystr \<Rightarrow> locator list \<Rightarrow> ('s, homework_item list) io" where
  "row_items drv target_date_str cells =
     (if length cells \<ge> 6 then
        io_bind (extract_cell_text drv (cells ! 0)) (\<lambda>hour_text.
        io_bind (extract_subject drv (cells ! 1)) (\<lambda>subject_text.
        io_bind (extract_cell_text drv (cells ! 2)) (\<lambda>teacher_text.
        io_bind (extract_cell_text drv (cells ! 3)) (\<lambda>status_text.
        io_bind (extract_cell_text drv (cells ! 4)) (\<lambda>topic.
        io_bind (extract_cell_text drv (cells ! 5)) (\<lambda>homework_text.
        io_bind (if length cells > 6 then extract_attached_files drv (cells ! 6)
                 else io_return []) (\<lambda>files.
          io_return
            (make_item target_date_str hour_text subject_text teacher_text status_text topic
               homework_text files))))))))
      else io_return [])"

text \<open>The loop over the rows, with the list \<open>homework_list\<close> it appends to.\<close>

fun extract_rows ::
    "'s driver \<Rightarrow> pystr \<Rightarrow> locator list \<Rightarrow> homework_item list \<Rightarrow> ('s, homework_item list) io" where
  "extract_rows drv target_date_str [] homework_list = io_return homework_list"
| "extract_rows drv target_date_str (row # rows) homework_list =
     io_bind (all_of drv (Inside row TABLE_CELLS)) (\<lambda>cells.
     io_bind (row_items drv target_date_str cells) (\<lambda>items.
       extract_rows drv target_date_str rows (homework_list @ items)))"

definition extract_table_data :: "'s driver \<Rightarrow> locator \<Rightarrow> pystr \<Rightarrow> ('s, homework_item list) io" where
  "extract_table_data drv table target_date_str =
     io_seq (io_attempt (await drv (Visible table)))
       (io_bind (all_of drv (Inside table TABLE_BODY_ROWS)) (\<lambda>rows.
          extract_rows drv target_date_str rows []))"

subsection \<open>_find_date_heading\<close>

fun first_heading :: "'s driver \<Rightarrow> pystr \<Rightarrow> locator list \<Rightarrow> ('s, locator option) io" where
  "first_heading drv target_date_str [] = io_return None"
| "first_heading drv target_date_str (heading # headings) =
     io_seq (io_attempt (io_seq (perform drv (Scroll_into_view heading)) (await drv Timeout)))
       (io_bind (text_content drv heading) (\<lambda>heading_text.
          if truthy heading_text \<and> contains target_date_str (str_of heading_text)
          then io_return (Some heading)
          else first_heading drv target_date_str headings))"

definition find_date_heading :: "'s driver \<Rightarrow> pystr \<Rightarrow> ('s, locator option) io" where
  "find_date_heading drv target_date_str =
     io_seq (await drv Load_state)
    (io_seq (perform drv Scroll_window)
    (io_seq (await drv Timeout)
    (io_seq (io_attempt (await drv (For_selector DATE_HEADING)))
    (io_bind (all_of drv (Locator DATE_HEADING)) (first_heading drv target_date_str)))))"

subsection \<open>_find_date_table\<close>

text \<open>The four methods, each a \<open>try\<close> that gives a table or falls through.\<close>

definition table_by_aria_label :: "'s driver \<Rightarrow> pystr \<Rightarrow> ('s, locator option) io" where
  "table_by_aria_label drv target_date_str =
     io_try
       (io_seq (await drv (Visible (First (Locator (TABLE_ARIA_LABEL target_date_str)))))
          (io_return (Some (First (Locator (TABLE_ARIA_LABEL target_date_str))))))
       (\<lambda>e. io_return None)"

fun scan_tables :: "'s driver \<Rightarrow> pystr \<Rightarrow> locator list \<Rightarrow> ('s, locator option) io" where
  "scan_tables drv target_date_str [] = io_return None"
| "scan_tables drv target_date_str (tab # tabs) =
     io_seq (io_attempt (io_seq (perform drv (Scroll_into_view tab)) (await drv Timeout)))
       (io_bind (get_attribute drv tab ''aria-label'') (\<lambda>tab_aria.
          if truthy tab_aria \<and> contains target_date_str (str_of tab_aria)
          then io_return (Some tab)
          else scan_tables drv target_date_str tabs))"

definition table_after_heading :: "'s driver \<Rightarrow> pystr \<Rightarrow> locator \<Rightarrow> ('s, locator option) io" where
  "table_after_heading drv target_date_str target_heading =
     io_try
       (io_seq (perform drv (Scroll_into_view target_heading))
       (io_seq (await drv Timeout)
       (io_bind (all_of drv (Locator TABLE_SELECTOR)) (\<lambda>all_tables.
        io_bind (element_handle drv target_heading) (\<lambda>heading_element.
          if heading_element then scan_tables drv target_date_str all_tables
          else io_return None)))))
       (\<lambda>e. io_return None)"

definition card_table :: "'s driver \<Rightarrow> pystr \<Rightarrow> locator \<Rightarrow> locator \<Rightarrow> ('s, locator option) io" where
  "card_table drv target_date_str target_heading card_loc =
     io_bind (text_content drv target_heading) (\<lambda>heading_text.
       if truthy heading_text then
         io_bind (count drv (Inside card_loc (HEADING_HAS_TEXT target_date_str))) (\<lambda>n.
           if n > 0 then
             io_seq (perform drv (Scroll_into_view card_loc))
            (io_seq (await drv Timeout)
            (io_bind (count drv (First (Inside card_loc DIV_ROLE_TABLE))) (\<lambda>tables.
               if tables > 0 then
                 io_seq (await drv (Visible (First (Inside card_loc DIV_ROLE_TABLE))))
                   (io_return (Some (First (Inside card_loc DIV_ROLE_TABLE))))
               else io_return None)))
           else io_return None)
       else io_return None)"

fun scan_cards :: "'s driver \<Rightarrow> pystr \<Rightarrow> locator \<Rightarrow> locator list \<Rightarrow> ('s, locator option) io" where
  "scan_cards drv target_date_str target_heading [] = io_return None"
| "scan_cards drv target_date_str target_heading (card_loc # cards) =
     io_bind (io_try (card_table drv target_date_str target_heading card_loc) (\<lambda>e. io_return None))
       (\<lambda>found. case found of
                   Some table \<Rightarrow> io_return (Some table)
                 | None \<Rightarrow> scan_cards drv target_date_str target_heading cards)"

definition table_in_card :: "'s driver \<Rightarrow> pystr \<Rightarrow> locator \<Rightarrow> ('s, locator option) io" where
  "table_in_card drv target_date_str target_heading =
     io_try
       (io_seq (perform drv (Scroll_into_view target_heading))
       (io_seq (await drv Timeout)
       (io_bind (count drv (Locator MAT_CARD)) (\<lambda>card_count.
          scan_cards drv target_date_str target_heading
            (map (Nth (Locator MAT_CARD)) [0..<card_count])))))
       (\<lambda>e. io_return None)"

fun scan_div_tables :: "'s driver \<Rightarrow> pystr \<Rightarrow> locator list \<Rightarrow> ('s, locator option) io" where
  "scan_div_tables drv target_date_str [] = io_return None"
| "scan_div_tables drv target_date_str (table # tables) =
     io_bind
       (io_try
          (io_seq (perform drv (Scroll_into_view table))
          (io_seq (await drv Timeout)
          (io_bind (get_attribute drv table ''aria-label'') (\<lambda>aria_label.
             io_return
               (if truthy aria_label \<and> contains target_date_str (str_of aria_label)
                then Some table else None)))))
          (\<lambda>e. io_return None))
       (\<lambda>found. case found of
                   Some t \<Rightarrow> io_return (Some t)
                 | None \<Rightarrow> scan_div_tables drv target_date_str tables)"

definition table_by_role :: "'s driver \<Rightarrow> pystr \<Rightarrow> locator \<Rightarrow> ('s, locator option) io" where
  "table_by_role drv target_date_str target_heading =
     io_try
       (io_seq (perform drv (Scroll_into_view target_heading))
       (io_seq (await drv Timeout)
       (io_bind (count drv (Locator DIV_ROLE_TABLE)) (\<lambda>n.
          scan_div_tables drv target_date_str (map (Nth (Locator DIV_ROLE_TABLE)) [0..<n])))))
       (\<lambda>e. io_return None)"

definition or_else :: "('s, 'a option) io \<Rightarrow> ('s, 'a option) io \<Rightarrow> ('s, 'a option) io" where
  "or_else m k = io_bind m (\<lambda>found. case found of Some x \<Rightarrow> io_return (Some x) | None \<Rightarrow> k)"

definition find_date_table :: "'s driver \<Rightarrow> pystr \<Rightarrow> locator \<Rightarrow> ('s, locator option) io" where
  "find_date_table drv target_date_str target_heading =
     io_seq (io_attempt (io_seq (perform drv (Scroll_into_view target_heading)) (await drv Timeout)))
       (or_else (table_by_aria_label drv target_date_str)
       (or_else (table_after_heading drv target_date_str target_heading)
       (or_else (table_in_card drv target_date_str target_heading)
          (table_by_role drv target_date_str target_heading))))"

subsection \<open>extract_homework\<close>

text \<open>
  The body of the \<open>try\<close>. The variable \<open>homework_list\<close> is the empty list until the
  result of \<open>_extract_table_data\<close> is assigned to it, and nothing after that
  assignment can raise; so the handler, which returns \<open>homework_list\<close>, returns the
  empty list. The argument \<open>now\<close> is \<open>datetime.now()\<close>, used when no target date
  is given.
\<close>

definition extract_homework_body ::
    "'s driver \<Rightarrow> datetime \<Rightarrow> datetime option \<Rightarrow> ('s, homework_item list) io" where
  "extract_homework_body drv now target_date =
     io_seq (await drv Load_state)
       (let target = (case target_date of None \<Rightarrow> now | Some d \<Rightarrow> d);
            target_date_str = strftime_display target
        in io_bind (find_date_on_page drv target_date_str) (\<lambda>on_page.
           io_bind (if \<not> on_page then navigate_to_date_page drv target else io_return True)
             (\<lambda>reachable.
               if \<not> reachable then io_return []
               else
                 io_bind (find_date_heading drv target_date_str) (\<lambda>target_heading.
                   case target_heading of
                     None \<Rightarrow> io_return []
                   | Some heading \<Rightarrow>
                       io_bind (find_date_table drv target_date_str heading) (\<lambda>table.
                         case table of
                           None \<Rightarrow> io_return []
                         | Some tab \<Rightarrow> extract_table_data drv tab target_date_str)))))"

definition extract_homework ::
    "'s driver \<Rightarrow> datetime \<Rightarrow> datetime option \<Rightarrow> ('s, homework_item list) io" where
  "extract_homework drv now target_date =
     io_try (extract_homework_body drv now target_date) (\<lambda>e. io_return [])"

section \<open>selectors.py and config.py: the constants of the login flow\<close>

definition LOGIN_URL :: pystr where
  "LOGIN_URL = ascii ''https://webtop.smartschool.co.il/account/login''"

definition STUDENT_CARD_URL :: pystr where
  "STUDENT_CARD_URL = ascii ''https://webtop.smartschool.co.il/Student_Card''"

definition HOMEWORK_URL :: pystr where
  "HOMEWORK_URL = ascii ''https://webtop.smartschool.co.il/Student_Card/11''"

definition WEBTOP_DOMAIN :: pystr where
  "WEBTOP_DOMAIN = ascii ''webtop.smartschool.co.il''"

definition MOE_DOMAIN :: pystr where
  "MOE_DOMAIN = ascii ''lgn.edu.gov.il''"

definition LOGIN_PAGE_INDICATOR :: pystr where
  "LOGIN_PAGE_INDICATOR = ascii ''login''"

text \<open>The Hebrew texts of \<open>TextPatterns\<close>, as code points.\<close>

definition USERNAME_PASSWORD_TAB :: pystr where
  "USERNAME_PASSWORD_TAB =
     [1499, 1504, 1497, 1505, 1492, 32, 1506, 1501, 32, 1511, 1493, 1491, 32, 1502, 1513, 1514,
      1502, 1513, 32, 1493, 1505, 1497, 1505, 1502, 1492]"

definition MOBILE_TAB :: pystr where
  "MOBILE_TAB =
     [1499, 1504, 1497, 1505, 1492, 32, 1506, 1501, 32, 1511, 1493, 1491, 32, 1495, 1491, 32,
      1508, 1506, 1502, 1497, 32, 1500, 1504, 1497, 1497, 1491]"

definition PASSWORD_LABEL :: pystr where
  "PASSWORD_LABEL = [1505, 1497, 1505, 1502, 1492]"

definition LOGIN_BUTTON_LABEL :: pystr where
  "LOGIN_BUTTON_LABEL = [1499, 1504, 1497, 1505, 1492]"

text \<open>\<open>Selectors.ERROR_KEYWORDS\<close>: five Hebrew phrases and \<open>error\<close>.\<close>

definition ERROR_KEYWORDS :: "pystr list" where
  "ERROR_KEYWORDS =
     [[1513, 1490, 1497, 1488, 1492], ascii ''error'', [1500, 1488, 32, 1504, 1499, 1493, 1503],
      [1500, 1488, 32, 1514, 1511, 1497, 1503], [1504, 1499, 1513, 1500],
      [1499, 1493, 1513, 1500]]"

definition USERNAME_SELECTORS :: "selector list" where
  "USERNAME_SELECTORS = [USERNAME_SELECTOR 0, USERNAME_SELECTOR 1, USERNAME_SELECTOR 2]"

definition PASSWORD_SELECTORS :: "selector list" where
  "PASSWORD_SELECTORS = [PASSWORD_SELECTOR 0, PASSWORD_SELECTOR 1, PASSWORD_SELECTOR 2]"

definition DASHBOARD_INDICATORS :: "selector list" where
  "DASHBOARD_INDICATORS =
     [DASHBOARD_INDICATOR 0, DASHBOARD_INDICATOR 1, DASHBOARD_INDICATOR 2, DASHBOARD_INDICATOR 3]"

definition STUDENT_CARD_SELECTORS :: "selector list" where
  "STUDENT_CARD_SELECTORS =
     [STUDENT_CARD_SELECTOR 0, STUDENT_CARD_SELECTOR 1, STUDENT_CARD_SELECTOR 2]"

definition HOMEWORK_SELECTORS :: "selector list" where
  "HOMEWORK_SELECTORS =
     [HOMEWORK_SELECTOR 0, HOMEWORK_SELECTOR 1, HOMEWORK_SELECTOR 2, HOMEWORK_SELECTOR 3,
      HOMEWORK_SELECTOR 4]"

text \<open>
  \<open>Timeouts\<close> and \<open>Delays\<close>: two numbers of passes, and the times the login flow
  compares, in milliseconds. \<open>LOGIN_REDIRECT\<close> depends on the environment variable
  \<open>CI\<close>.
\<close>

definition BUTTON_ENABLE_MAX_WAIT :: nat where
  "BUTTON_ENABLE_MAX_WAIT = 10"

definition RECAPTCHA_WAIT :: nat where
  "RECAPTCHA_WAIT = 10"

definition RECAPTCHA_CHECK_DELAY :: nat where
  "RECAPTCHA_CHECK_DELAY = 5000"

definition LONG :: nat where
  "LONG = 1000"

definition LOGIN_REDIRECT :: "bool \<Rightarrow> nat" where
  "LOGIN_REDIRECT is_ci = (if is_ci then 60000 else 30000)"

section \<open>str.lower\<close>

text \<open>
  \<open>str.lower()\<close> on the characters whose lower case has an ASCII letter: the letters
  A to Z, U+0130 (which becomes i and U+0307) and the Kelvin sign U+212A (which
  becomes k). Every other character is kept. A cased character outside these has a
  lower case without ASCII and without Hebrew characters, as it has none itself, so
  the tests of the program, which look for ASCII and Hebrew phrases in the lowered
  text, come out as in Python.
\<close>

definition lower_char :: "nat \<Rightarrow> pystr" where
  "lower_char c =
     (if 65 \<le> c \<and> c \<le> 90 then [c + 32]
      else if c = 304 then [105, 775]
      else if c = 8490 then [107]
      else [c])"

definition py_lower :: "pystr \<Rightarrow> pystr" where
  "py_lower t = concat (map lower_char t)"

section \<open>auth.py\<close>

text \<open>
  The loops of the module that return from inside a \<open>try\<close> are recursive functions
  giving the value returned, or \<open>False\<close> or \<open>None\<close> when the loop ends without
  returning; \<open>caught\<close> and \<open>caught_none\<close> are the \<open>try\<close> around such a loop whose
  handler only logs.
\<close>

definition caught :: "('s, bool) io \<Rightarrow> ('s, bool) io" where
  "caught m = io_try m (\<lambda>e. io_return False)"

definition caught_none :: "('s, 'a option) io \<Rightarrow> ('s, 'a option) io" where
  "caught_none m = io_try m (\<lambda>e. io_return None)"

definition or_true :: "('s, bool) io \<Rightarrow> ('s, bool) io \<Rightarrow> ('s, bool) io" where
  "or_true m k = io_bind m (\<lambda>found. if found then io_return True else k)"

subsection \<open>_accept_cookies\<close>

definition accept_cookies :: "'s driver \<Rightarrow> ('s, unit) io" where
  "accept_cookies drv =
     io_attempt
       (io_bind (count drv (Locator COOKIE_BUTTON)) (\<lambda>n.
          if n > 0 then perform drv (Click (Locator COOKIE_BUTTON) False) else io_return ()))"

subsection \<open>_click_moe_button\<close>

text \<open>
  The loop \<open>for _ in range(Timeouts.BUTTON_ENABLE_MAX_WAIT)\<close> that waits for a button
  to be enabled, with the passes left; it is the same for the button of the Ministry
  and for the login button.
\<close>

fun wait_enabled :: "'s driver \<Rightarrow> locator \<Rightarrow> nat \<Rightarrow> ('s, unit) io" where
  "wait_enabled drv button 0 = io_return ()"
| "wait_enabled drv button (Suc n) =
     io_bind (get_attribute drv button ''disabled'') (\<lambda>is_disabled.
     io_bind (get_attribute drv button ''aria-disabled'') (\<lambda>aria_disabled.
       if is_disabled = None \<and> aria_disabled \<noteq> Some (ascii ''true'') then io_return ()
       else wait_enabled drv button n))"

definition click_moe_button :: "'s driver \<Rightarrow> ('s, unit) io" where
  "click_moe_button drv =
     io_seq (await drv (Visible (Locator MOE_BUTTON)))
    (io_seq (wait_enabled drv (Locator MOE_BUTTON) BUTTON_ENABLE_MAX_WAIT)
       (perform drv (Click (Locator MOE_BUTTON) False)))"

subsection \<open>_is_tab_already_selected\<close>

fun username_visible :: "'s driver \<Rightarrow> selector list \<Rightarrow> ('s, bool) io" where
  "username_visible drv [] = io_return False"
| "username_visible drv (sel # sels) =
     io_bind (count drv (First (Locator sel))) (\<lambda>n.
     io_bind (if n > 0 then is_visible drv (First (Locator sel)) else io_return False) (\<lambda>visible.
       if visible then io_return True else username_visible drv sels))"

definition right_tab_text :: "pystr option \<Rightarrow> bool" where
  "right_tab_text tab_text \<longleftrightarrow>
     truthy tab_text \<and> contains USERNAME_PASSWORD_TAB (str_of tab_text)
     \<and> \<not> contains MOBILE_TAB (str_of tab_text)"

fun selected_tab :: "'s driver \<Rightarrow> locator list \<Rightarrow> ('s, bool) io" where
  "selected_tab drv [] = io_return False"
| "selected_tab drv (tab # tabs) =
     io_bind (text_content drv tab) (\<lambda>tab_text.
       if right_tab_text tab_text then
         io_bind (get_attribute drv tab ''aria-selected'') (\<lambda>aria_selected.
         io_bind (get_attribute drv tab ''class'') (\<lambda>class_attr.
           if aria_selected = Some (ascii ''true'')
              \<or> (truthy class_attr
                  \<and> (contains (ascii ''selected'') (py_lower (str_of class_attr))
                      \<or> contains (ascii ''active'') (py_lower (str_of class_attr))))
           then io_return True
           else selected_tab drv tabs))
       else selected_tab drv tabs)"

fun password_visible :: "'s driver \<Rightarrow> selector list \<Rightarrow> ('s, bool) io" where
  "password_visible drv [] = io_return False"
| "password_visible drv (sel # sels) =
     io_bind (count drv (First (Locator sel))) (\<lambda>n.
     io_bind (if n > 0 then is_visible drv (First (Locator sel)) else io_return False) (\<lambda>visible.
       if visible then
         io_bind (get_attribute drv (First (Locator sel)) ''aria-label'') (\<lambda>aria_label.
           if truthy aria_label \<and> contains PASSWORD_LABEL (str_of aria_label)
              \<and> \<not> contains MOBILE_TAB (str_of aria_label)
           then io_return True
           else password_visible drv sels)
       else password_visible drv sels))"

definition is_tab_already_selected :: "'s driver \<Rightarrow> ('s, bool) io" where
  "is_tab_already_selected drv =
     or_true (caught (username_visible drv USERNAME_SELECTORS))
    (or_true (caught (io_bind (all_of drv (Locator TAB_ROLE)) (selected_tab drv)))
       (caught (password_visible drv PASSWORD_SELECTORS)))"

subsection \<open>_click_correct_tab\<close>

fun click_tab_by_text :: "'s driver \<Rightarrow> locator list \<Rightarrow> ('s, bool) io" where
  "click_tab_by_text drv [] = io_return False"
| "click_tab_by_text drv (tab # tabs) =
     io_bind (text_content drv tab) (\<lambda>tab_text.
       if right_tab_text tab_text then
         io_seq (await drv (Visible tab))
        (io_seq (perform drv (Click tab False)) (io_return True))
       else click_tab_by_text drv tabs)"

definition click_tab_by_role :: "'s driver \<Rightarrow> ('s, bool) io" where
  "click_tab_by_role drv =
     io_bind (get_by_role drv USERNAME_PASSWORD_TAB_ROLE) (\<lambda>tab.
     io_seq (await drv (Visible tab))
    (io_bind (text_content drv tab) (\<lambda>tab_text.
       if right_tab_text tab_text
       then io_seq (perform drv (Click tab False)) (io_return True)
       else io_return False)))"

definition click_tab_by_selector :: "'s driver \<Rightarrow> ('s, bool) io" where
  "click_tab_by_selector drv =
     io_bind (count drv (First (Locator TAB_SELECTOR))) (\<lambda>n.
       if n > 0 then
         io_seq (text_content drv (First (Locator TAB_SELECTOR)))
        (io_seq (await drv (Visible (First (Locator TAB_SELECTOR))))
        (io_seq (perform drv (Click (First (Locator TAB_SELECTOR)) False)) (io_return True)))
       else io_return False)"

definition click_correct_tab :: "'s driver \<Rightarrow> ('s, bool) io" where
  "click_correct_tab drv =
     or_true (caught (io_bind (all_of drv (Locator TAB_ROLE)) (click_tab_by_text drv)))
    (or_true (caught (click_tab_by_role drv))
       (caught (click_tab_by_selector drv)))"

subsection \<open>_select_username_password_tab and _handle_moe_login_page\<close>

definition select_username_password_tab :: "'s driver \<Rightarrow> ('s, unit) io" where
  "select_username_password_tab drv =
     io_bind (is_tab_already_selected drv) (\<lambda>selected.
       if selected then io_return ()
       else io_bind (click_correct_tab drv) (\<lambda>tab_clicked. io_return ()))"

definition handle_moe_login_page :: "'s driver \<Rightarrow> ('s, unit) io" where
  "handle_moe_login_page drv =
     io_seq (io_attempt (await drv Url))
    (io_seq (await drv Load_state)
       (select_username_password_tab drv))"

subsection \<open>_find_username_field, _find_password_field and _fill_credentials\<close>

text \<open>
  The loop over the selectors, the same in both lookups: each selector has its own
  \<open>try\<close>, and a failure goes on to the next selector.
\<close>

fun find_field :: "'s driver \<Rightarrow> selector list \<Rightarrow> ('s, locator option) io" where
  "find_field drv [] = io_return None"
| "find_field drv (sel # sels) =
     or_else
       (caught_none
          (io_bind (count drv (First (Locator sel))) (\<lambda>n.
             if n > 0 then
               io_seq (await drv (Visible (First (Locator sel))))
                 (io_return (Some (First (Locator sel))))
             else io_return None)))
       (find_field drv sels)"

definition find_username_field :: "'s driver \<Rightarrow> ('s, locator) io" where
  "find_username_field drv =
     io_bind (find_field drv USERNAME_SELECTORS) (\<lambda>found.
       case found of
         Some field \<Rightarrow> io_return field
       | None \<Rightarrow>
           io_try (get_by_role drv USERNAME_ROLE)
             (\<lambda>e. io_raise (Exception ''Could not find username field'')))"

definition find_password_field :: "'s driver \<Rightarrow> ('s, locator) io" where
  "find_password_field drv =
     io_bind (find_field drv PASSWORD_SELECTORS) (\<lambda>found.
       case found of
         Some field \<Rightarrow> io_return field
       | None \<Rightarrow>
           io_try (get_by_role drv PASSWORD_ROLE)
             (\<lambda>e. io_raise (Exception ''Could not find password field'')))"

definition fill_credentials :: "'s driver \<Rightarrow> pystr \<Rightarrow> pystr \<Rightarrow> ('s, unit) io" where
  "fill_credentials drv username password =
     io_bind (find_username_field drv) (\<lambda>username_field.
     io_seq (perform drv (Fill username_field username))
    (io_bind (find_password_field drv) (\<lambda>password_field.
     io_seq (perform drv (Click password_field False))
       (perform drv (Fill password_field password)))))"

subsection \<open>_find_login_button and _click_login_button\<close>

definition has_login_text :: "pystr option \<Rightarrow> bool" where
  "has_login_text btn_text \<longleftrightarrow> truthy btn_text \<and> contains LOGIN_BUTTON_LABEL (str_of btn_text)"

text \<open>Method 1, the submit buttons. The check of the parent has a \<open>try\<close> of its own.\<close>

fun submit_button :: "'s driver \<Rightarrow> locator list \<Rightarrow> ('s, locator option) io" where
  "submit_button drv [] = io_return None"
| "submit_button drv (btn # btns) =
     io_bind (text_content drv btn) (\<lambda>btn_text.
       if has_login_text btn_text then
         io_bind (get_attribute drv btn ''role'') (\<lambda>role.
           if role \<noteq> Some (ascii ''tab'') then
             or_else
               (io_try
                  (io_bind (get_attribute drv (First (Inside btn XPATH_PARENT)) ''role'')
                     (\<lambda>parent_role.
                        if parent_role \<noteq> Some (ascii ''tablist'')
                           \<and> parent_role \<noteq> Some (ascii ''tabpanel'')
                        then io_return (Some btn) else io_return None))
                  (\<lambda>e. io_return (Some btn)))
               (submit_button drv btns)
           else submit_button drv btns)
       else submit_button drv btns)"

text \<open>
  Method 2, the buttons with the login text. The handler of the inner \<open>try\<close> reads
  the type of the button and, for a submit button, its text for the log.
\<close>

fun text_button :: "'s driver \<Rightarrow> locator list \<Rightarrow> ('s, locator option) io" where
  "text_button drv [] = io_return None"
| "text_button drv (btn # btns) =
     io_bind (get_attribute drv btn ''role'') (\<lambda>role.
       if role \<noteq> Some (ascii ''tab'') then
         or_else
           (io_try
              (io_bind (count drv (Inside btn XPATH_TABLIST_ANCESTOR)) (\<lambda>tablist_parent.
                 if tablist_parent = 0
                 then io_seq (text_content drv btn) (io_return (Some btn))
                 else io_return None))
              (\<lambda>e. io_bind (get_attribute drv btn ''type'') (\<lambda>btn_type.
                      if btn_type = Some (ascii ''submit'')
                      then io_seq (text_content drv btn) (io_return (Some btn))
                      else io_return None)))
           (text_button drv btns)
       else text_button drv btns)"

text \<open>Method 3, the buttons by role, and method 4, the submit button of a form.\<close>

fun role_button :: "'s driver \<Rightarrow> locator list \<Rightarrow> ('s, locator option) io" where
  "role_button drv [] = io_return None"
| "role_button drv (btn # btns) =
     io_bind (get_attribute drv btn ''role'') (\<lambda>role.
       if role \<noteq> Some (ascii ''tab'') then io_return (Some btn) else role_button drv btns)"

fun form_button :: "'s driver \<Rightarrow> locator list \<Rightarrow> ('s, locator option) io" where
  "form_button drv [] = io_return None"
| "form_button drv (form # forms) =
     io_bind (count drv (First (Inside form LOGIN_BUTTON_SUBMIT))) (\<lambda>n.
       if n > 0 then
         io_bind (text_content drv (First (Inside form LOGIN_BUTTON_SUBMIT))) (\<lambda>btn_text.
           if has_login_text btn_text
           then io_return (Some (First (Inside form LOGIN_BUTTON_SUBMIT)))
           else form_button drv forms)
       else form_button drv forms)"

definition find_login_button :: "'s driver \<Rightarrow> ('s, locator) io" where
  "find_login_button drv =
     io_bind
       (or_else (caught_none (io_bind (all_of drv (Locator LOGIN_BUTTON_SUBMIT)) (submit_button drv)))
       (or_else (caught_none (io_bind (all_of drv (Locator LOGIN_BUTTON_TEXT)) (text_button drv)))
       (or_else (caught_none (io_bind (get_by_role drv LOGIN_BUTTON_ROLE) (\<lambda>buttons.
                                io_bind (all_of drv buttons) (role_button drv))))
          (caught_none (io_bind (all_of drv (Locator FORM)) (form_button drv))))))
       (\<lambda>found.
          case found of
            Some btn \<Rightarrow> io_return btn
          | None \<Rightarrow>
              io_raise (Exception ''Could not find login button (may have matched a tab instead)''))"

definition click_login_button :: "'s driver \<Rightarrow> ('s, unit) io" where
  "click_login_button drv =
     io_bind (find_login_button drv) (\<lambda>login_button.
     io_seq (wait_enabled drv login_button BUTTON_ENABLE_MAX_WAIT)
    (io_seq (text_content drv login_button)
       (perform drv (Click login_button False))))"

subsection \<open>_check_for_errors, _handle_recaptcha and _debug_login_failure\<close>

fun error_keyword_found :: "'s driver \<Rightarrow> pystr \<Rightarrow> pystr list \<Rightarrow> ('s, bool) io" where
  "error_keyword_found drv page_text [] = io_return False"
| "error_keyword_found drv page_text (keyword # keywords) =
     (if contains (py_lower keyword) (py_lower page_text) then
        io_bind (count drv (First (Locator (ERROR_TEXT_REGEX keyword)))) (\<lambda>n.
          if n > 0
          then io_seq (text_content drv (First (Locator (ERROR_TEXT_REGEX keyword))))
                 (io_return True)
          else error_keyword_found drv page_text keywords)
      else error_keyword_found drv page_text keywords)"

definition check_for_errors :: "'s driver \<Rightarrow> ('s, bool) io" where
  "check_for_errors drv =
     caught
       (io_bind (text_content drv (Locator BODY)) (\<lambda>page_text.
          if truthy page_text then error_keyword_found drv (str_of page_text) ERROR_KEYWORDS
          else io_return False))"

text \<open>The loop \<open>for _ in range(Timeouts.RECAPTCHA_WAIT)\<close>, with the passes left.\<close>

fun recaptcha_solved :: "'s driver \<Rightarrow> nat \<Rightarrow> ('s, bool) io" where
  "recaptcha_solved drv 0 = io_return False"
| "recaptcha_solved drv (Suc n) =
     io_seq (sleep drv)
       (io_bind (page_url drv) (\<lambda>current_url.
          if contains WEBTOP_DOMAIN current_url then io_return True
          else recaptcha_solved drv n))"

definition handle_recaptcha :: "'s driver \<Rightarrow> ('s, bool) io" where
  "handle_recaptcha drv =
     caught
       (io_bind (count drv (Locator RECAPTCHA_IFRAME)) (\<lambda>n.
          if n > 0 then
            io_bind (is_visible drv (First (Locator RECAPTCHA_IFRAME))) (\<lambda>visible.
              if visible then recaptcha_solved drv RECAPTCHA_WAIT else io_return False)
          else io_return False))"

text \<open>
  \<open>_debug_login_failure\<close>: the title and the text of the body are read in one \<open>try\<close>,
  with a \<open>try\<close> of its own around the look at each of the first three error
  keywords (where the slice of a missing text raises inside that \<open>try\<close>), and the
  screenshot is taken in another; every handler only logs.
\<close>

fun debug_keywords :: "'s driver \<Rightarrow> pystr \<Rightarrow> pystr list \<Rightarrow> ('s, unit) io" where
  "debug_keywords drv body_text [] = io_return ()"
| "debug_keywords drv body_text (keyword # keywords) =
     io_seq
       (if contains (py_lower keyword) (py_lower body_text) then
          io_attempt
            (io_bind (count drv (First (Locator (ERROR_TEXT keyword)))) (\<lambda>n.
               if n > 0
               then io_seq (text_content drv (First (Locator (ERROR_TEXT keyword))))
                      (io_return ())
               else io_return ()))
        else io_return ())
       (debug_keywords drv body_text keywords)"

definition debug_login_failure :: "'s driver \<Rightarrow> ('s, unit) io" where
  "debug_login_failure drv =
     io_seq
       (io_attempt
          (io_seq (title drv)
             (io_bind (text_content drv (Locator BODY)) (\<lambda>body_text.
                if truthy body_text
                then debug_keywords drv (str_of body_text) (take 3 ERROR_KEYWORDS)
                else io_return ()))))
       (io_attempt (perform drv Screenshot))"

subsection \<open>_verify_login_success\<close>

text \<open>
  One pass of the \<open>while True\<close> loop ends by \<open>return\<close>, by \<open>break\<close>, or goes on to
  the test of the timeout with the new value of \<open>recaptcha_checked\<close>.
\<close>

datatype verdict = Answer bool | Leave | Carry_on bool

text \<open>
  The time since the start of the wait is the difference the clock shows; as every
  pass sleeps for \<open>Delays.LONG\<close>, it is at least the time slept, which is the number
  of passes done times that delay.
\<close>

definition elapsed_time :: "'s driver \<Rightarrow> nat \<Rightarrow> nat \<Rightarrow> 's \<Rightarrow> nat" where
  "elapsed_time drv start_time passes s = max (pw_time drv s - start_time) (passes * LONG)"

definition redirected :: "pystr \<Rightarrow> bool" where
  "redirected current_url \<longleftrightarrow>
     contains WEBTOP_DOMAIN current_url
     \<and> \<not> contains LOGIN_PAGE_INDICATOR (py_lower current_url)"

definition check_moe_page :: "'s driver \<Rightarrow> pystr \<Rightarrow> nat \<Rightarrow> bool \<Rightarrow> ('s, verdict) io" where
  "check_moe_page drv current_url elapsed recaptcha_checked =
     (if contains MOE_DOMAIN current_url then
        io_bind (check_for_errors drv) (\<lambda>failed.
          if failed then io_return (Answer False)
          else if \<not> recaptcha_checked \<and> elapsed > RECAPTCHA_CHECK_DELAY then
            io_bind (handle_recaptcha drv) (\<lambda>solved.
              io_return (if solved then Leave else Carry_on True))
          else io_return (Carry_on recaptcha_checked))
      else io_return (Carry_on recaptcha_checked))"

text \<open>
  The loop: \<open>Some b\<close> when it returns \<open>b\<close>, \<open>None\<close> when it is left by \<open>break\<close>.
\<close>

function wait_for_redirect ::
    "'s driver \<Rightarrow> bool \<Rightarrow> nat \<Rightarrow> nat \<Rightarrow> bool \<Rightarrow> ('s, bool option) io" where
  "wait_for_redirect drv is_ci start_time passes recaptcha_checked s =
     (let current_url = pw_url drv s;
          elapsed = elapsed_time drv start_time passes s
      in if redirected current_url then (Inr None, s, [])
         else
           (case check_moe_page drv current_url elapsed recaptcha_checked s of
              (Inl e, s', t) \<Rightarrow> (Inl e, s', t)
            | (Inr (Answer b), s', t) \<Rightarrow> (Inr (Some b), s', t)
            | (Inr Leave, s', t) \<Rightarrow> (Inr None, s', t)
            | (Inr (Carry_on checked), s', t) \<Rightarrow>
                if elapsed > LOGIN_REDIRECT is_ci then
                  (case io_seq (debug_login_failure drv) (io_return None) s' of
                     (r, s'', t') \<Rightarrow> (r, s'', t @ t'))
                else
                  (case wait_for_redirect drv is_ci start_time (Suc passes) checked
                          (pw_sleep drv s') of
                     (r, s'', t') \<Rightarrow> (r, s'', t @ t'))))"
  by pat_completeness auto
termination
proof (relation "measure (\<lambda>(drv, is_ci, start_time, passes, recaptcha_checked, s).
        Suc (LOGIN_REDIRECT is_ci div LONG) - passes)")
  show "wf (measure (\<lambda>(drv :: 's driver, is_ci, start_time :: nat, passes,
                       recaptcha_checked :: bool, s :: 's).
          Suc (LOGIN_REDIRECT is_ci div LONG) - passes))"
    by simp
next
  fix drv :: "'s driver" and is_ci start_time passes recaptcha_checked and s :: 's
    and current_url elapsed
  assume "elapsed = elapsed_time drv start_time passes s"
    and "\<not> LOGIN_REDIRECT is_ci < elapsed"
  then have "passes * LONG \<le> LOGIN_REDIRECT is_ci"
    by (simp add: elapsed_time_def)
  then have "passes \<le> LOGIN_REDIRECT is_ci div LONG"
    by (simp add: LONG_def less_eq_div_iff_mult_less_eq)
  then show "\<And>x xa y xb ya x1 x2 x2a.
       ((drv, is_ci, start_time, Suc passes, x2a, pw_sleep drv xb),
        drv, is_ci, start_time, passes, recaptcha_checked, s)
       \<in> measure (\<lambda>(drv, is_ci, start_time, passes, recaptcha_checked, s).
            Suc (LOGIN_REDIRECT is_ci div LONG) - passes)"
    by simp
qed

fun dashboard_found :: "'s driver \<Rightarrow> selector list \<Rightarrow> ('s, bool) io" where
  "dashboard_found drv [] = io_return False"
| "dashboard_found drv (indicator # indicators) =
     or_true (caught (io_seq (await drv (For_selector indicator)) (io_return True)))
       (dashboard_found drv indicators)"

definition final_verification :: "'s driver \<Rightarrow> ('s, bool) io" where
  "final_verification drv =
     io_seq (io_attempt (await drv Load_state))
    (io_seq (sleep drv)
    (io_bind (page_url drv) (\<lambda>current_url.
       if \<not> contains LOGIN_PAGE_INDICATOR (py_lower current_url)
          \<and> \<not> contains MOE_DOMAIN (py_lower current_url)
       then io_return True
       else
         or_true (dashboard_found drv DASHBOARD_INDICATORS)
           (if contains MOE_DOMAIN current_url
            then io_seq (check_for_errors drv) (io_return False)
            else io_return False))))"

definition verify_login_success :: "'s driver \<Rightarrow> bool \<Rightarrow> ('s, bool) io" where
  "verify_login_success drv is_ci =
     io_bind (clock drv) (\<lambda>start_time.
     io_bind (wait_for_redirect drv is_ci start_time 0 False) (\<lambda>returned.
       case returned of
         Some b \<Rightarrow> io_return b
       | None \<Rightarrow> final_verification drv))"

subsection \<open>login\<close>

definition cloudflare_blocks :: "pystr \<Rightarrow> bool" where
  "cloudflare_blocks page_title \<longleftrightarrow>
     contains (ascii ''could not be satisfied'') (py_lower page_title)
     \<or> contains (ascii ''cloudflare'') (py_lower page_title)"

text \<open>
  The check for Cloudflare: \<open>True\<close> when the page is still blocked after the reload,
  where \<open>login\<close> returns \<open>False\<close>.
\<close>

definition still_blocked :: "'s driver \<Rightarrow> ('s, bool) io" where
  "still_blocked drv =
     io_bind (title drv) (\<lambda>page_title.
       if cloudflare_blocks page_title then
         io_seq (perform drv Reload)
           (io_bind (title drv) (\<lambda>page_title.
              if contains (ascii ''could not be satisfied'') (py_lower page_title)
              then io_seq (debug_login_failure drv) (io_return True)
              else io_return False))
       else io_return False)"

text \<open>The body of the \<open>try\<close> of \<open>login\<close>.\<close>

definition login_body :: "'s driver \<Rightarrow> bool \<Rightarrow> pystr \<Rightarrow> pystr \<Rightarrow> ('s, bool) io" where
  "login_body drv is_ci username password =
     io_seq (perform drv (Goto LOGIN_URL))
       (io_bind (still_blocked drv) (\<lambda>blocked.
          if blocked then io_return False
          else
            io_seq (accept_cookies drv)
           (io_seq (click_moe_button drv)
           (io_seq (handle_moe_login_page drv)
           (io_seq (fill_credentials drv username password)
           (io_seq (click_login_button drv)
           (io_bind (verify_login_success drv is_ci) (\<lambda>login_success.
              io_seq (if \<not> login_success then debug_login_failure drv else io_return ())
                (io_return login_success)))))))))"

text \<open>
  \<open>login\<close>: the handler of \<open>except Exception\<close> tries \<open>_debug_login_failure\<close> in a
  \<open>try\<close> of its own and returns \<open>False\<close>.
\<close>

definition login :: "'s driver \<Rightarrow> bool \<Rightarrow> pystr \<Rightarrow> pystr \<Rightarrow> ('s, bool) io" where
  "login drv is_ci username password =
     io_try (login_body drv is_ci username password)
       (\<lambda>e. io_seq (io_attempt (debug_login_failure drv)) (io_return False))"

section \<open>navigator.py\<close>

text \<open>
  The loop over the selectors of a link, the same in \<open>_click_student_card\<close> and in
  \<open>_click_homework_link\<close>: each selector has its own \<open>try\<close>.
\<close>

fun click_link :: "'s driver \<Rightarrow> selector list \<Rightarrow> ('s, bool) io" where
  "click_link drv [] = io_return False"
| "click_link drv (sel # sels) =
     or_true
       (caught
          (io_bind (count drv (First (Locator sel))) (\<lambda>n.
             if n > 0 then
               io_seq (await drv (Visible (First (Locator sel))))
              (io_seq (perform drv (Click (First (Locator sel)) False))
              (io_seq (io_attempt (await drv Url))
              (io_seq (await drv Load_state)
              (io_seq (sleep drv) (io_return True)))))
             else io_return False)))
       (click_link drv sels)"

definition click_student_card :: "'s driver \<Rightarrow> ('s, bool) io" where
  "click_student_card drv = click_link drv STUDENT_CARD_SELECTORS"

definition click_homework_link :: "'s driver \<Rightarrow> ('s, bool) io" where
  "click_homework_link drv = click_link drv HOMEWORK_SELECTORS"

definition verify_homework_page :: "'s driver \<Rightarrow> ('s, bool) io" where
  "verify_homework_page drv =
     io_bind (page_url drv) (\<lambda>current_url.
       if contains LOGIN_PAGE_INDICATOR (py_lower current_url) then io_return False
       else if contains (ascii ''Student_Card/11'') current_url
               \<or> contains (ascii ''Student_Card'') current_url
       then io_return True
       else caught (io_seq (await drv (For_selector PAGE_CONTENT)) (io_return True)))"

definition navigate_to_homework :: "'s driver \<Rightarrow> ('s, bool) io" where
  "navigate_to_homework drv =
     caught
       (io_seq (await drv Load_state)
       (io_seq (sleep drv)
       (io_bind (page_url drv) (\<lambda>current_url.
          if contains LOGIN_PAGE_INDICATOR (py_lower current_url) then io_return False
          else
            io_bind (click_student_card drv) (\<lambda>student_card_clicked.
            io_bind
              (if \<not> student_card_clicked then
                 io_seq (perform drv (Goto STUDENT_CARD_URL))
                (io_seq (sleep drv)
                (io_bind (page_url drv) (\<lambda>current_url.
                   io_return (contains LOGIN_PAGE_INDICATOR (py_lower current_url)))))
               else io_return False)
              (\<lambda>expired.
                 if expired then io_return False
                 else
                   io_bind (click_homework_link drv) (\<lambda>homework_clicked.
                   io_seq
                     (if \<not> homework_clicked
                      then io_seq (perform drv (Goto HOMEWORK_URL)) (sleep drv)
                      else io_return ())
                     (verify_homework_page drv))))))))"

section \<open>browser.py\<close>

text \<open>
  \<open>launch_browser\<close> tries its four configurations in turn, each in a \<open>try\<close>; when
  none launches it raises an \<open>Exception\<close> whose message begins as below.
\<close>

fun launch_any :: "'s driver \<Rightarrow> nat list \<Rightarrow> ('s, unit) io" where
  "launch_any drv [] = io_raise (Exception ''Failed to launch any browser'')"
| "launch_any drv (config # configs) =
     io_try (perform drv (Launch_browser config)) (\<lambda>e. launch_any drv configs)"

definition launch_browser :: "'s driver \<Rightarrow> ('s, unit) io" where
  "launch_browser drv = launch_any drv [0, 1, 2, 3]"

definition create_context :: "'s driver \<Rightarrow> ('s, unit) io" where
  "create_context drv = perform drv New_context"

definition create_page :: "'s driver \<Rightarrow> ('s, unit) io" where
  "create_page drv = io_seq (perform drv New_page) (perform drv Add_init_script)"

section \<open>scraper.py\<close>

text \<open>
  The handler of the \<open>try\<close> in \<open>get_today_homework\<close> closes what has been opened, in a
  \<open>try\<close> of its own, and raises the exception again.
\<close>

definition cleanup :: "'s driver \<Rightarrow> bool \<Rightarrow> bool \<Rightarrow> ('s, unit) io" where
  "cleanup drv context browser =
     io_attempt
       (io_seq (if context then perform drv Close_context else io_return ())
          (if browser then perform drv Close_browser else io_return ()))"

definition or_cleanup :: "('s, 'a) io \<Rightarrow> ('s, unit) io \<Rightarrow> ('s, 'a) io" where
  "or_cleanup m c = io_try m (\<lambda>e. io_seq c (io_raise e))"

text \<open>
  The body of \<open>async with async_playwright()\<close>. An exception finds \<open>browser\<close> and
  \<open>context\<close> set or not according to where it is raised.
\<close>

definition scrape ::
    "'s driver \<Rightarrow> bool \<Rightarrow> datetime \<Rightarrow> pystr option \<Rightarrow> pystr option \<Rightarrow> datetime
     \<Rightarrow> ('s, homework_item list) io" where
  "scrape drv is_ci now username password target_date =
     io_seq (or_cleanup (launch_browser drv) (cleanup drv False False))
    (io_seq (or_cleanup (create_context drv) (cleanup drv False True))
       (or_cleanup
          (io_seq (create_page drv)
             (if \<not> truthy username \<or> \<not> truthy password then io_raise ValueError
              else
                io_bind (login drv is_ci (str_of username) (str_of password)) (\<lambda>login_success.
                  if \<not> login_success then io_raise (Exception ''Failed to login to Webtop'')
                  else
                    io_bind (navigate_to_homework drv) (\<lambda>nav_success.
                      if \<not> nav_success
                      then io_raise (Exception ''Failed to navigate to homework page'')
                      else
                        io_bind (extract_homework drv now (Some target_date)) (\<lambda>found.
                          io_seq (perform drv Close_context)
                         (io_seq (perform drv Close_browser)
                            (io_return found)))))))
          (cleanup drv True True)))"

text \<open>
  \<open>async with\<close>: the exit of the context manager runs whether the body raises or
  not, and an exception of the exit takes the place of the outcome of the body.
\<close>

definition io_finally :: "('s, 'a) io \<Rightarrow> ('s, unit) io \<Rightarrow> ('s, 'a) io" where
  "io_finally m k s =
     (case m s of
        (r, s', t) \<Rightarrow>
          (case k s' of
             (Inl e, s'', t') \<Rightarrow> (Inl e, s'', t @ t')
           | (Inr u, s'', t') \<Rightarrow> (r, s'', t @ t')))"

text \<open>
  \<open>get_today_homework\<close>, with the two credentials of the scraper, the clock
  \<open>datetime.now()\<close> and the argument \<open>date\<close>. A date given is parsed by
  \<open>parse_date\<close>, which returns a date for every string it does not reject.
\<close>

definition get_today_homework ::
    "'s driver \<Rightarrow> bool \<Rightarrow> datetime \<Rightarrow> pystr option \<Rightarrow> pystr option \<Rightarrow> pystr option
     \<Rightarrow> ('s, homework_item list) io" where
  "get_today_homework drv is_ci now username password date_text =
     (if \<not> truthy username \<or> \<not> truthy password then io_raise ValueError
      else
        io_bind
          (if truthy date_text then
             (case parse_date date_text of
                Inl e \<Rightarrow> io_raise e
              | Inr None \<Rightarrow> io_raise (Exception ''AttributeError'')
              | Inr (Some d) \<Rightarrow> io_return d)
           else io_return now)
          (\<lambda>target_date.
             io_seq (perform drv Start_playwright)
               (io_finally (scrape drv is_ci now username password target_date)
                  (perform drv Stop_playwright))))"

section \<open>Predicates on computations\<close>

text \<open>
  A computation that never raises, and a computation all of whose events satisfy a
  predicate, from every state.
\<close>

definition no_raise :: "('s, 'a) io \<Rightarrow> bool" where
  "no_raise m \<longleftrightarrow> (\<forall>s. \<exists>x. fst (m s) = Inr x)"

definition traces_in :: "(event \<Rightarrow> bool) \<Rightarrow> ('s, 'a) io \<Rightarrow> bool" where
  "traces_in P m \<longleftrightarrow> (\<forall>s. list_all P (snd (snd (m s))))"

text \<open>The events that scroll, and those that click.\<close>

fun is_scroll :: "event \<Rightarrow> bool" where
  "is_scroll (Did Scroll_window) = True"
| "is_scroll (Did (Scroll_into_view loc)) = True"
| "is_scroll ev = False"

fun is_click :: "event \<Rightarrow> bool" where
  "is_click (Did (Click loc force)) = True"
| "is_click ev = False"

fun is_did :: "event \<Rightarrow> bool" where
  "is_did (Did a) = True"
| "is_did ev = False"

definition clicks :: "event list \<Rightarrow> nat" where
  "clicks t = length (filter is_click t)"

text \<open>The pages a trace marks as visited, each with the direction of the search.\<close>

fun visits :: "event list \<Rightarrow> (pystr \<times> direction) list" where
  "visits [] = []"
| "visits (Visit u d # evs) = (u, d) # visits evs"
| "visits (ev # evs) = visits evs"

definition click_bound :: "nat \<Rightarrow> ('s, 'a) io \<Rightarrow> bool" where
  "click_bound n m \<longleftrightarrow> (\<forall>s. clicks (snd (snd (m s))) \<le> n)"

fun opposite :: "direction \<Rightarrow> direction" where
  "opposite Forward = Backward"
| "opposite Backward = Forward"

text \<open>
  A trace visits in single file when, from one clearing of the visited set to the
  next, every visit is in the one direction of that stretch and no page is visited
  twice, and each clearing turns the direction around. The arguments are the direction
  of the current stretch, once a visit has shown it, and the pages visited in it.
\<close>

fun single_file :: "direction option \<Rightarrow> pystr set \<Rightarrow> event list \<Rightarrow> bool" where
  "single_file d seen [] = True"
| "single_file d seen (Visit u d' # evs) =
     ((case d of None \<Rightarrow> True | Some d0 \<Rightarrow> d0 = d') \<and> u \<notin> seen
      \<and> single_file (Some d') (insert u seen) evs)"
| "single_file d seen (Cleared # evs) = single_file (map_option opposite d) {} evs"
| "single_file d seen (Did a # evs) = single_file d seen evs"

section \<open>Example pages\<close>

text \<open>
  A page that never changes: it shows two headings, for 20/01/2026 and 22/01/2026,
  every operation succeeds, and there is no button.
\<close>

definition two_headings_page :: "unit driver" where
  "two_headings_page =
     \<lparr>pw_url = (\<lambda>s. ascii ''https://webtop.smartschool.co.il/Student_Card/11''),
      pw_perform = (\<lambda>a s. (Inr (), s)),
      pw_wait = (\<lambda>x s. (Inr (), s)),
      pw_count = (\<lambda>loc s. (Inr (if loc = Locator DATE_HEADING then 2 else 0), s)),
      pw_is_visible = (\<lambda>loc s. (Inr True, s)),
      pw_get_attribute = (\<lambda>loc name s. (Inr None, s)),
      pw_text_content =
        (\<lambda>loc s. (Inr (Some (if loc = Nth (Locator DATE_HEADING) 0
                               then ascii ''20/01/2026'' else ascii ''22/01/2026'')), s)),
      pw_title = (\<lambda>s. (Inr [], s)),
      pw_get_by_role = (\<lambda>role s. (Inr (By_role role), s)),
      pw_element_handle = (\<lambda>loc s. (Inr True, s)),
      pw_sleep = (\<lambda>s. s),
      pw_time = (\<lambda>s. 0)\<rparr>"

text \<open>
  A page whose navigation buttons are there, visible and enabled, but cannot be
  clicked (every click, forced or not, raises), and which comes to show the heading
  of 21/01/2026 once four clicks have failed. Its state is the number of clicks tried.
\<close>

definition late_heading_page :: "nat driver" where
  "late_heading_page =
     \<lparr>pw_url = (\<lambda>s. ascii ''/Student_Card/11''),
      pw_perform =
        (\<lambda>a s. (case a of Click loc force \<Rightarrow> (Inl DriverError, s + 1) | _ \<Rightarrow> (Inr (), s))),
      pw_wait = (\<lambda>x s. (Inr (), s)),
      pw_count =
        (\<lambda>loc s. (Inr (if loc = Locator DATE_HEADING then (if 4 \<le> s then 1 else 0) else 1), s)),
      pw_is_visible = (\<lambda>loc s. (Inr True, s)),
      pw_get_attribute = (\<lambda>loc name s. (Inr None, s)),
      pw_text_content = (\<lambda>loc s. (Inr (Some (ascii ''21/01/2026'')), s)),
      pw_title = (\<lambda>s. (Inr [], s)),
      pw_get_by_role = (\<lambda>role s. (Inr (By_role role), s)),
      pw_element_handle = (\<lambda>loc s. (Inr True, s)),
      pw_sleep = (\<lambda>s. s),
      pw_time = (\<lambda>s. 0)\<rparr>"

text \<open>The results a computation returns all satisfy a predicate.\<close>

definition returns_in :: "('a \<Rightarrow> bool) \<Rightarrow> ('s, 'a) io \<Rightarrow> bool" where
  "returns_in Q m \<longleftrightarrow> (\<forall>s. case fst (m s) of Inl e \<Rightarrow> True | Inr x \<Rightarrow> Q x)"

text \<open>
  A homework page for 21/01/2026: one date heading, a table found by its label, and two
  rows. The first row has seven cells: hour 1, subject Math, teacher Cohen, status
  present, the lesson topic \<open>---\<close>, the homework \<open>p. 45\<close> and one attached link. The
  second row has five cells; on the broken variant of the page, asking for the cells
  of the second row raises.
\<close>

definition example_table :: locator where
  "example_table = First (Locator (TABLE_ARIA_LABEL (ascii ''21/01/2026'')))"

definition example_row :: "nat \<Rightarrow> locator" where
  "example_row i = Nth (Inside example_table TABLE_BODY_ROWS) i"

definition example_cell :: "nat \<Rightarrow> locator" where
  "example_cell i = Nth (Inside (example_row 0) TABLE_CELLS) i"

definition example_link :: locator where
  "example_link = Nth (Inside (example_cell 6) FILE_LINKS) 0"

definition homework_page :: "bool \<Rightarrow> unit driver" where
  "homework_page broken =
     \<lparr>pw_url = (\<lambda>s. ascii ''/Student_Card/11''),
      pw_perform = (\<lambda>a s. (Inr (), s)),
      pw_wait = (\<lambda>x s. (Inr (), s)),
      pw_count =
        (\<lambda>loc s.
           if loc = Locator DATE_HEADING then (Inr 1, s)
           else if loc = Inside example_table TABLE_BODY_ROWS then (Inr 2, s)
           else if loc = Inside (example_row 0) TABLE_CELLS then (Inr 7, s)
           else if loc = Inside (example_row 1) TABLE_CELLS
           then (if broken then (Inl DriverError, s) else (Inr 5, s))
           else if loc = Inside (example_cell 6) FILE_LINKS then (Inr 1, s)
           else (Inr 0, s)),
      pw_is_visible = (\<lambda>loc s. (Inr True, s)),
      pw_get_attribute =
        (\<lambda>loc name s.
           (Inr (if loc = example_link \<and> name = ''href'' then Some (ascii ''f.pdf'') else None), s)),
      pw_text_content =
        (\<lambda>loc s.
           (Inr (if loc = Nth (Locator DATE_HEADING) 0 then Some (ascii ''21/01/2026'')
                 else if loc = example_cell 0 then Some (ascii ''1'')
                 else if loc = example_cell 1 then Some (ascii ''Math'')
                 else if loc = example_cell 2 then Some (ascii ''Cohen'')
                 else if loc = example_cell 3 then Some (ascii ''present'')
                 else if loc = example_cell 4 then Some (ascii ''---'')
                 else if loc = example_cell 5 then Some (ascii ''p. 45'')
                 else if loc = example_link then Some (ascii ''file'')
                 else None), s)),
      pw_title = (\<lambda>s. (Inr [], s)),
      pw_get_by_role = (\<lambda>role s. (Inr (By_role role), s)),
      pw_element_handle = (\<lambda>loc s. (Inr True, s)),
      pw_sleep = (\<lambda>s. s),
      pw_time = (\<lambda>s. 0)\<rparr>"

definition example_item :: homework_item where
  "example_item =
     \<lparr>hour = ascii ''1'', subject = ascii ''Math'', teacher = ascii ''Cohen'',
      lesson_topic = ascii ''---'', homework = ascii ''p. 45'', combined = ascii ''p. 45'',
      status = ascii ''present'', attached_files = [Link (ascii ''f.pdf'') (ascii ''file'')],
      date = ascii ''21/01/2026''\<rparr>"

text \<open>A value that a computation returns from some state.\<close>

definition yields :: "('s, 'a) io \<Rightarrow> 'a \<Rightarrow> bool" where
  "yields m x \<longleftrightarrow> (\<exists>s s' t. m s = (Inr x, s', t))"

text \<open>
  A login page without fields and without buttons: every locator counts no element,
  no element has a text or an attribute, and every wait and action succeeds. With
  \<open>roles\<close> the lookups by role answer (with locators of no element); without, they
  raise.
\<close>

definition bare_login_page :: "bool \<Rightarrow> unit driver" where
  "bare_login_page roles =
     \<lparr>pw_url = (\<lambda>s. ascii ''https://lgn.edu.gov.il/nidp/''),
      pw_perform = (\<lambda>a s. (Inr (), s)),
      pw_wait = (\<lambda>x s. (Inr (), s)),
      pw_count = (\<lambda>loc s. (Inr 0, s)),
      pw_is_visible = (\<lambda>loc s. (Inr False, s)),
      pw_get_attribute = (\<lambda>loc name s. (Inr None, s)),
      pw_text_content = (\<lambda>loc s. (Inr None, s)),
      pw_title = (\<lambda>s. (Inr [], s)),
      pw_get_by_role = (\<lambda>role s. (if roles then Inr (By_role role) else Inl DriverError, s)),
      pw_element_handle = (\<lambda>loc s. (Inr True, s)),
      pw_sleep = (\<lambda>s. s),
      pw_time = (\<lambda>s. 0)\<rparr>"

chapter \<open>Properties\<close>

section \<open>Properties of combine_content\<close>

text \<open>
  C2, as stated, fails: the "no homework" marker given as the lesson topic is a
  recognized placeholder, the homework is empty, so both sides are empty or
  placeholders, and yet the result is the marker, not the empty string.
\<close>

theorem combine_content_same_set_counterexample:
  "recognized_placeholder NO_HOMEWORK_PLACEHOLDER
   \<and> combine_content NO_HOMEWORK_PLACEHOLDER [] = NO_HOMEWORK_PLACEHOLDER
   \<and> combine_content NO_HOMEWORK_PLACEHOLDER [] \<noteq> []"
  by (simp add: recognized_placeholder_def combine_content_def
      NO_HOMEWORK_PLACEHOLDER_def EMPTY_LESSON_PLACEHOLDER_def)

text \<open>
  C2, amended: each side has its own placeholders. The lesson topic is omitted when it
  is empty or the "empty lesson" marker; the homework is omitted when it is empty,
  \<open>"--"\<close> or the "no homework" marker. With both omitted the result is the empty
  string, with one omitted it is the other verbatim, and otherwise it is the lesson
  topic, \<open>" | "\<close> and the homework.
\<close>

theorem combine_content_per_side:
  "combine_content topic hw =
     (if lesson_omitted topic
      then (if homework_omitted hw then [] else hw)
      else (if homework_omitted hw then topic
            else topic @ [32, 124, 32] @ hw))"
  by (simp add: combine_content_def lesson_omitted_def homework_omitted_def)

section \<open>Properties of the character classes\<close>

lemma decimal_zero_of_ascii: "k < 10 \<Longrightarrow> decimal_zero_of (48 + k) = Some 48"
  by (simp add: decimal_zero_of_def decimal_zeros_def)

lemma is_decimal_ascii [simp]: "k < 10 \<Longrightarrow> is_decimal (48 + k)"
  by (simp add: is_decimal_def decimal_zero_of_ascii)

lemma decimal_value_ascii [simp]: "k < 10 \<Longrightarrow> decimal_value (48 + k) = k"
  by (simp add: decimal_value_def decimal_zero_of_ascii)

lemma is_decimal_ascii_range: "48 \<le> x \<Longrightarrow> x \<le> 57 \<Longrightarrow> is_decimal x"
  by (simp add: is_decimal_def decimal_zero_of_def decimal_zeros_def)

lemma decimal_zero_of_low: "c < 48 \<Longrightarrow> decimal_zero_of c = None"
  by (simp add: decimal_zero_of_def decimal_zeros_def)

lemma not_decimal_low [simp]: "c < 48 \<Longrightarrow> \<not> is_decimal c"
  by (simp add: is_decimal_def decimal_zero_of_low)

lemma space_not_decimal: "is_space c \<Longrightarrow> decimal_zero_of c = None"
  unfolding is_space_def
  by (elim disjE conjE) (simp_all add: decimal_zero_of_def decimal_zeros_def)

lemma decimal_not_space: "is_decimal c \<Longrightarrow> \<not> is_space c"
  using space_not_decimal by (auto simp: is_decimal_def)

lemma strip_surrounded:
  assumes "list_all is_space ws1" "list_all is_space ws2" "t \<noteq> []"
    "\<not> is_space (hd t)" "\<not> is_space (last t)"
  shows "strip (ws1 @ t @ ws2) = t"
proof -
  have a: "dropWhile is_space (ws1 @ t @ ws2) = t @ ws2"
    using assms by (cases t) (auto simp: dropWhile_append3 list_all_iff dropWhile_append)
  have b: "dropWhile is_space (rev ws2 @ rev t) = rev t"
    using assms by (cases "rev t") (auto simp: list_all_iff dropWhile_append last_rev hd_rev)
  show ?thesis by (simp add: strip_def a b)
qed

lemma pad2_value: "d \<le> 99 \<Longrightarrow> digits_value (pad2 d) = d"
  by (simp add: digits_value_def pad2_def)

lemma pad4_value: "y \<le> 9999 \<Longrightarrow> digits_value (pad4 y) = y"
proof -
  assume y: "y \<le> 9999"
  have a: "y div 100 = y div 10 div 10" "y div 1000 = y div 10 div 10 div 10"
    by (simp_all add: div_mult2_eq)
  have "1000 * (y div 1000) + 100 * (y div 100 mod 10) + 10 * (y div 10 mod 10) + y mod 10 = y"
    unfolding a
    using div_mult_mod_eq [of y 10] div_mult_mod_eq [of "y div 10" 10]
      div_mult_mod_eq [of "y div 10 div 10" 10]
    by linarith
  with y show ?thesis by (simp add: digits_value_def pad4_def)
qed

section \<open>Matching a rendered date\<close>

lemma match_d_pad2:
  assumes "1 \<le> d" "d \<le> 31" "c < 48"
  shows "regex_match (Dir_d # Lit c # fmt) (pad2 d @ c # s) =
         map (\<lambda>(g, r). ((Dir_d, pad2 d) # (Lit c, [c]) # g, r)) (regex_match fmt s)"
proof -
  have "d div 10 = 0 \<or> d div 10 = 1 \<or> d div 10 = 2 \<or> d div 10 = 3" using assms by arith
  moreover have "d mod 10 < 10" by simp
  moreover have "d div 10 = 0 \<Longrightarrow> 1 \<le> d mod 10" using assms by arith
  moreover have "d div 10 = 3 \<Longrightarrow> d mod 10 \<le> 1" using assms by arith
  ultimately show ?thesis using assms(3)
    by (auto simp: pad2_def group_d_def alt2_def alt1_def in_range_def)
qed

lemma match_m_pad2:
  assumes "1 \<le> m" "m \<le> 12" "c < 48"
  shows "regex_match (Dir_m # Lit c # fmt) (pad2 m @ c # s) =
         map (\<lambda>(g, r). ((Dir_m, pad2 m) # (Lit c, [c]) # g, r)) (regex_match fmt s)"
proof -
  have "m div 10 = 0 \<or> m div 10 = 1" using assms by arith
  moreover have "m mod 10 < 10" by simp
  moreover have "m div 10 = 0 \<Longrightarrow> 1 \<le> m mod 10" using assms by arith
  moreover have "m div 10 = 1 \<Longrightarrow> m mod 10 \<le> 2" using assms by arith
  ultimately show ?thesis using assms(3)
    by (auto simp: pad2_def group_m_def alt2_def alt1_def in_range_def)
qed

lemma match_Y_pad4:
  "regex_match (Dir_Y # fmt) (pad4 y @ s) =
     map (\<lambda>(g, r). ((Dir_Y, pad4 y) # g, r)) (regex_match fmt s)"
  by (simp add: pad4_def group_Y_def)

lemma match_Lit: "regex_match (Lit c # fmt) (x # s) =
     (if x = c then map (\<lambda>(g, r). ((Lit c, [c]) # g, r)) (regex_match fmt s) else [])"
  by simp

lemma match_d_end:
  assumes "1 \<le> d" "d \<le> 31"
  shows "\<exists>rest. regex_match [Dir_d] (pad2 d) = ([(Dir_d, pad2 d)], []) # rest"
proof -
  have "d div 10 = 0 \<or> d div 10 = 1 \<or> d div 10 = 2 \<or> d div 10 = 3" using assms by arith
  moreover have "d mod 10 < 10" by simp
  moreover have "d div 10 = 0 \<Longrightarrow> 1 \<le> d mod 10" using assms by arith
  moreover have "d div 10 = 3 \<Longrightarrow> d mod 10 \<le> 1" using assms by arith
  ultimately show ?thesis
    by (auto simp: pad2_def group_d_def alt2_def alt1_def in_range_def)
qed

lemma fail_d_sep:
  "b \<noteq> c \<Longrightarrow> e \<noteq> c \<Longrightarrow> regex_match (Dir_d # Lit c # fmt) (a # b # e # s) = []"
  by (auto simp: group_d_def alt2_def alt1_def)

lemma fail_Y_third:
  "\<not> is_decimal e \<Longrightarrow> regex_match (Dir_Y # fmt) (a # b # e # s) = []"
  by (auto simp: group_Y_def split: list.splits)

lemma py_int_pad2: "d \<le> 99 \<Longrightarrow> py_int (pad2 d) = Inr d"
proof -
  assume d: "d \<le> 99"
  have "strip (pad2 d) = pad2 d"
    using strip_surrounded [of "[]" "[]" "pad2 d"]
    by (simp add: pad2_def decimal_not_space)
  then show ?thesis using d pad2_value [OF d] by (simp add: py_int_def) (simp add: pad2_def)
qed

lemma py_int_pad4: "y \<le> 9999 \<Longrightarrow> py_int (pad4 y) = Inr y"
proof -
  assume y: "y \<le> 9999"
  have "strip (pad4 y) = pad4 y"
    using strip_surrounded [of "[]" "[]" "pad4 y"]
    by (simp add: pad4_def decimal_not_space)
  then show ?thesis using y pad4_value [OF y] by (simp add: py_int_def) (simp add: pad4_def)
qed

lemma valid_date_bounds:
  "valid_date y m d \<Longrightarrow> 1 \<le> d \<and> d \<le> 31 \<and> 1 \<le> m \<and> m \<le> 12 \<and> 1 \<le> y \<and> y \<le> 9999"
  by (auto simp: valid_date_def days_in_month_def split: if_splits)

lemma match_Y_end: "regex_match [Dir_Y] (pad4 y) = [([(Dir_Y, pad4 y)], [])]"
  using match_Y_pad4 [of "[]" y "[]"] by simp

lemma strptime_render_DMY:
  assumes v: "valid_date y m d" and c: "c < 48"
  shows "strptime (pad2 d @ c # pad2 m @ c # pad4 y) [Dir_d, Lit c, Dir_m, Lit c, Dir_Y]
         = Inr \<lparr>year = y, month = m, day = d, micros = 0\<rparr>"
proof -
  note b = valid_date_bounds [OF v]
  have "regex_match [Dir_d, Lit c, Dir_m, Lit c, Dir_Y] (pad2 d @ c # pad2 m @ c # pad4 y)
        = [([(Dir_d, pad2 d), (Lit c, [c]), (Dir_m, pad2 m), (Lit c, [c]), (Dir_Y, pad4 y)], [])]"
    using b c by (simp add: match_d_pad2 match_m_pad2 match_Y_end del: regex_match.simps)
  then show ?thesis
    using b v by (simp add: strptime_def group_int_def py_int_pad2 py_int_pad4)
qed

lemma strptime_render_YMD:
  assumes v: "valid_date y m d" and c: "c < 48"
  shows "strptime (pad4 y @ c # pad2 m @ c # pad2 d) [Dir_Y, Lit c, Dir_m, Lit c, Dir_d]
         = Inr \<lparr>year = y, month = m, day = d, micros = 0\<rparr>"
proof -
  note b = valid_date_bounds [OF v]
  obtain rest where r: "regex_match [Dir_d] (pad2 d) = ([(Dir_d, pad2 d)], []) # rest"
    using match_d_end b by blast
  have "regex_match [Dir_Y, Lit c, Dir_m, Lit c, Dir_d] (pad4 y @ c # pad2 m @ c # pad2 d)
        = map (\<lambda>(g, r). ((Dir_Y, pad4 y) # g, r))
            (map (\<lambda>(g, r). ((Lit c, [c]) # g, r))
               (map (\<lambda>(g, r). ((Dir_m, pad2 m) # (Lit c, [c]) # g, r))
                  (([(Dir_d, pad2 d)], []) # rest)))"
    using b c by (simp add: match_Y_pad4 match_Lit match_m_pad2 r del: regex_match.simps)
  then show ?thesis
    using b v by (simp add: strptime_def group_int_def py_int_pad2 py_int_pad4)
qed

lemma strptime_no_match: "regex_match fmt t = [] \<Longrightarrow> strptime t fmt = Inl ValueError"
  by (simp add: strptime_def)

section \<open>Properties of parse_date\<close>

lemma strip_render:
  assumes "list_all is_space ws1" "list_all is_space ws2"
  shows "strip (ws1 @ render f dt @ ws2) = render f dt"
proof -
  obtain ord c where f: "f = (ord, c)" by (cases f)
  have k: "\<And>k. \<not> is_space (48 + k mod 10)"
    by (rule decimal_not_space) simp
  show ?thesis
    by (rule strip_surrounded [OF assms]) (cases ord; simp add: f pad2_def pad4_def k)+
qed

lemma fail_DMY_on_DMY:
  "c \<noteq> c' \<Longrightarrow> c < 48 \<Longrightarrow>
   strptime (pad2 d @ c' # s) (Dir_d # Lit c # fmt) = Inl ValueError"
  by (rule strptime_no_match) (simp add: pad2_def fail_d_sep del: regex_match.simps)

lemma fail_DMY_on_YMD:
  "c < 48 \<Longrightarrow> strptime (pad4 y @ s) (Dir_d # Lit c # fmt) = Inl ValueError"
  by (rule strptime_no_match) (simp add: pad4_def fail_d_sep del: regex_match.simps)

lemma fail_YMD_on_YMD:
  "c \<noteq> c' \<Longrightarrow> strptime (pad4 y @ c' # s) (Dir_Y # Lit c # fmt) = Inl ValueError"
  by (rule strptime_no_match) (simp add: match_Y_pad4 match_Lit del: regex_match.simps)

lemma fail_YMD_on_DMY:
  "c' < 48 \<Longrightarrow> strptime (pad2 d @ c' # s) (Dir_Y # fmt) = Inl ValueError"
  by (rule strptime_no_match) (simp add: pad2_def fail_Y_third del: regex_match.simps)

lemma try_formats_rendered:
  assumes v: "valid_date y m d" and f: "f \<in> set supported_formats"
    and s: "strip s = render f \<lparr>year = y, month = m, day = d, micros = 0\<rparr>"
  shows "try_formats s date_formats = Inr \<lparr>year = y, month = m, day = d, micros = 0\<rparr>"
proof -
  from f consider "f = (DMY, 45)" | "f = (DMY, 47)" | "f = (YMD, 45)" | "f = (YMD, 47)"
    | "f = (DMY, 46)"
    by (auto simp: supported_formats_def)
  then show ?thesis
  proof cases
    case 1
    then show ?thesis using s strptime_render_DMY [OF v, of 45]
      by (simp add: date_formats_def)
  next
    case 2
    then show ?thesis using s strptime_render_DMY [OF v, of 47]
      by (simp add: date_formats_def fail_DMY_on_DMY)
  next
    case 3
    then show ?thesis using s strptime_render_YMD [OF v, of 45]
      by (simp add: date_formats_def fail_DMY_on_YMD)
  next
    case 4
    then show ?thesis using s strptime_render_YMD [OF v, of 47]
      by (simp add: date_formats_def fail_DMY_on_YMD fail_YMD_on_YMD)
  next
    case 5
    then show ?thesis using s strptime_render_DMY [OF v, of 46]
      by (simp add: date_formats_def fail_DMY_on_DMY fail_YMD_on_DMY)
  qed
qed

text \<open>
  C7: for every calendar date, its rendering in each of the five supported formats, with
  any whitespace around it, parses to that same date: the result does not depend on
  the format.
\<close>

theorem parse_date_format_invariant:
  assumes "valid_date y m d" and "f \<in> set supported_formats"
    and "list_all is_space ws1" and "list_all is_space ws2"
  shows "parse_date (Some (ws1 @ render f \<lparr>year = y, month = m, day = d, micros = 0\<rparr> @ ws2))
         = Inr (Some \<lparr>year = y, month = m, day = d, micros = 0\<rparr>)"
  using try_formats_rendered [OF assms(1,2) strip_render [OF assms(3,4)]]
  by (simp add: parse_date_def)

theorem parse_date_format_invariant_witness:
  "parse_date (Some (ascii ''  2026/01/21 '')) = Inr (Some \<lparr>year = 2026, month = 1, day = 21, micros = 0\<rparr>)
   \<and> parse_date (Some (ascii ''21.01.2026'')) = Inr (Some \<lparr>year = 2026, month = 1, day = 21, micros = 0\<rparr>)"
proof -
  have v: "valid_date 2026 1 21"
    by (simp add: valid_date_def days_in_month_def)
  have a: "parse_date (Some ([32, 32] @ render (YMD, 47) \<lparr>year = 2026, month = 1, day = 21, micros = 0\<rparr> @ [32]))
        = Inr (Some \<lparr>year = 2026, month = 1, day = 21, micros = 0\<rparr>)"
    by (rule parse_date_format_invariant [OF v]) (simp_all add: supported_formats_def is_space_def)
  have b: "parse_date (Some ([] @ render (DMY, 46) \<lparr>year = 2026, month = 1, day = 21, micros = 0\<rparr> @ []))
        = Inr (Some \<lparr>year = 2026, month = 1, day = 21, micros = 0\<rparr>)"
    by (rule parse_date_format_invariant [OF v]) (simp_all add: supported_formats_def is_space_def)
  show ?thesis using a b by (simp add: ascii_def pad2_def pad4_def)
qed

lemma split_on_no_sep: "c \<notin> set a \<Longrightarrow> split_on c a = [a]"
  by (induction a) auto

lemma split_on_append: "c \<notin> set a \<Longrightarrow> split_on c (a @ c # r) = a # split_on c r"
  by (induction a) auto

lemma decimal_not_sep: "is_decimal x \<Longrightarrow> c < 48 \<Longrightarrow> x \<noteq> c"
  using not_decimal_low by blast

lemma group_d_sound:
  assumes "(tok, r) \<in> set (group_d s)"
  shows "s = tok @ r \<and> short_field tok \<and> (\<forall>c. c < 48 \<and> c \<noteq> 32 \<longrightarrow> c \<notin> set tok)"
proof -
  note k = is_decimal_ascii_range
  show ?thesis using assms
    by (auto simp: group_d_def alt2_def alt1_def in_range_def short_field_def k
        dest: decimal_not_sep split: list.splits if_splits)
qed

lemma group_m_sound:
  assumes "(tok, r) \<in> set (group_m s)"
  shows "s = tok @ r \<and> short_field tok \<and> (\<forall>c. c < 48 \<and> c \<noteq> 32 \<longrightarrow> c \<notin> set tok)"
proof -
  note k = is_decimal_ascii_range
  show ?thesis using assms
    by (auto simp: group_m_def alt2_def alt1_def in_range_def short_field_def k
        split: list.splits if_splits)
qed

lemma group_Y_sound:
  assumes "(tok, r) \<in> set (group_Y s)"
  shows "s = tok @ r \<and> year_field tok \<and> (\<forall>c. c < 48 \<longrightarrow> c \<notin> set tok)"
  using assms
  by (auto simp: group_Y_def year_field_def dest: decimal_not_sep split: list.splits if_splits)

lemma strip_decimals:
  assumes "list_all is_decimal t"
  shows "strip t = t"
proof (cases "t = []")
  case True
  then show ?thesis by (simp add: strip_def)
next
  case False
  then have "is_decimal (hd t)" "is_decimal (last t)"
    using assms by (auto simp: list_all_iff)
  then show ?thesis
    using strip_surrounded [of "[]" "[]" t] False by (simp add: decimal_not_space)
qed

lemma py_int_short: "short_field t \<Longrightarrow> py_int t = Inr (field_value t)"
proof -
  assume a: "short_field t"
  have s: "is_space 32" by (simp add: is_space_def)
  have n: "\<And>b. is_decimal b \<Longrightarrow> b \<noteq> 32" using not_decimal_low by fastforce
  from a consider a1 where "t = [a1]" "is_decimal a1"
    | a1 b where "t = [a1, b]" "is_decimal a1" "is_decimal b"
    | b where "t = [32, b]" "is_decimal b"
    by (auto simp: short_field_def split: list.splits)
  then show ?thesis
  proof cases
    case 1
    then show ?thesis using strip_decimals [of t] n by (auto simp: py_int_def field_value_def)
  next
    case 2
    then show ?thesis using strip_decimals [of t] n by (auto simp: py_int_def field_value_def)
  next
    case 3
    then have "strip t = [b]"
      using s by (simp add: strip_def decimal_not_space)
    then show ?thesis using 3 n by (auto simp: py_int_def field_value_def)
  qed
qed

lemma py_int_year: "year_field t \<Longrightarrow> py_int t = Inr (field_value t)"
proof -
  assume a: "year_field t"
  then have d: "list_all is_decimal t" and l: "t \<noteq> []" by (auto simp: year_field_def)
  then have "is_decimal (hd t)" by (cases t) auto
  then have "hd t \<noteq> 32" using not_decimal_low by fastforce
  then have "dropWhile (\<lambda>c. c = 32) t = t" using l by (cases t) auto
  then show ?thesis using d l strip_decimals [OF d] by (simp add: py_int_def field_value_def)
qed

lemma regex_match_Cons_mem:
  "(groups, rest) \<in> set (regex_match (d # fmt) s) \<longleftrightarrow>
     (\<exists>tok r g. (tok, r) \<in> set (alternatives d s) \<and> (g, rest) \<in> set (regex_match fmt r)
        \<and> groups = (d, tok) # g)"
  by (auto simp: image_iff) force

lemma Lit_alternative:
  "(tok, r) \<in> set (alternatives (Lit c) s) \<longleftrightarrow> tok = [c] \<and> s = c # r"
  by (auto split: list.splits if_splits)

lemma strptime_InrD:
  assumes "strptime t fmt = Inr dt"
  shows "\<exists>groups y m d. (groups, []) \<in> set (regex_match fmt t)
           \<and> group_int groups Dir_Y 1900 = Inr y \<and> group_int groups Dir_m 1 = Inr m
           \<and> group_int groups Dir_d 1 = Inr d \<and> valid_date y m d
           \<and> dt = \<lparr>year = y, month = m, day = d, micros = 0\<rparr>"
  using assms
  by (auto simp: strptime_def split: list.splits if_splits sum.splits prod.splits)

lemma strptime_error: "strptime t fmt = Inl e \<Longrightarrow> e = ValueError"
  by (auto simp: strptime_def group_int_def py_int_def Let_def
      split: list.splits if_splits sum.splits prod.splits option.splits)

lemma strptime_sound_DMY:
  assumes s: "strptime t [Dir_d, Lit c, Dir_m, Lit c, Dir_Y] = Inr dt" and c: "c < 48" "c \<noteq> 32"
  shows "date_in_format (DMY, c) t = Some (year dt, month dt, day dt)"
proof -
  from strptime_InrD [OF s] obtain groups y m d where
    g: "(groups, []) \<in> set (regex_match [Dir_d, Lit c, Dir_m, Lit c, Dir_Y] t)"
    and i: "group_int groups Dir_Y 1900 = Inr y" "group_int groups Dir_m 1 = Inr m"
      "group_int groups Dir_d 1 = Inr d"
    and v: "valid_date y m d" and dt: "dt = \<lparr>year = y, month = m, day = d, micros = 0\<rparr>"
    by blast
  from g obtain td r1 tm r2 ty where
    a: "(td, c # r1) \<in> set (group_d t)" "(tm, c # r2) \<in> set (group_m r1)"
      "(ty, []) \<in> set (group_Y r2)"
    and gr: "groups = [(Dir_d, td), (Lit c, [c]), (Dir_m, tm), (Lit c, [c]), (Dir_Y, ty)]"
    by (auto simp: regex_match_Cons_mem Lit_alternative
        simp del: regex_match.simps alternatives.simps(4) simp add: regex_match.simps(1))
  note d = group_d_sound [OF a(1)] and m = group_m_sound [OF a(2)] and y = group_Y_sound [OF a(3)]
  have t: "t = td @ c # tm @ c # ty" using d m y by simp
  have n: "c \<notin> set td" "c \<notin> set tm" "c \<notin> set ty" using d m y c by auto
  have sp: "split_on c t = [td, tm, ty]"
    unfolding t using n by (simp add: split_on_append split_on_no_sep)
  have f: "short_field td" "short_field tm" "year_field ty" using d m y by auto
  have "field_value ty = y" "field_value tm = m" "field_value td = d"
    using i f by (simp_all add: gr group_int_def py_int_short py_int_year)
  then show ?thesis using sp f v dt by simp
qed

lemma strptime_sound_YMD:
  assumes s: "strptime t [Dir_Y, Lit c, Dir_m, Lit c, Dir_d] = Inr dt" and c: "c < 48" "c \<noteq> 32"
  shows "date_in_format (YMD, c) t = Some (year dt, month dt, day dt)"
proof -
  from strptime_InrD [OF s] obtain groups y m d where
    g: "(groups, []) \<in> set (regex_match [Dir_Y, Lit c, Dir_m, Lit c, Dir_d] t)"
    and i: "group_int groups Dir_Y 1900 = Inr y" "group_int groups Dir_m 1 = Inr m"
      "group_int groups Dir_d 1 = Inr d"
    and v: "valid_date y m d" and dt: "dt = \<lparr>year = y, month = m, day = d, micros = 0\<rparr>"
    by blast
  from g obtain ty r1 tm r2 td where
    a: "(ty, c # r1) \<in> set (group_Y t)" "(tm, c # r2) \<in> set (group_m r1)"
      "(td, []) \<in> set (group_d r2)"
    and gr: "groups = [(Dir_Y, ty), (Lit c, [c]), (Dir_m, tm), (Lit c, [c]), (Dir_d, td)]"
    by (auto simp: regex_match_Cons_mem Lit_alternative
        simp del: regex_match.simps alternatives.simps(4) simp add: regex_match.simps(1))
  note y = group_Y_sound [OF a(1)] and m = group_m_sound [OF a(2)] and d = group_d_sound [OF a(3)]
  have t: "t = ty @ c # tm @ c # td" using d m y by simp
  have n: "c \<notin> set td" "c \<notin> set tm" "c \<notin> set ty" using d m y c by auto
  have sp: "split_on c t = [ty, tm, td]"
    unfolding t using n by (simp add: split_on_append split_on_no_sep)
  have f: "short_field td" "short_field tm" "year_field ty" using d m y by auto
  have "field_value ty = y" "field_value tm = m" "field_value td = d"
    using i f by (simp_all add: gr group_int_def py_int_short py_int_year)
  then show ?thesis using sp f v dt by simp
qed

lemma try_formats_sound:
  "try_formats s fmts = Inr dt \<Longrightarrow> \<exists>fmt \<in> set fmts. strptime (strip s) fmt = Inr dt"
  by (induction fmts) (auto split: sum.splits exn.splits)

lemma try_formats_error: "try_formats s fmts = Inl e \<Longrightarrow> e = ValueError"
  by (induction fmts) (auto split: sum.splits exn.splits dest: strptime_error)

lemma parse_date_sound:
  assumes "parse_date (Some s) = Inr r"
  shows "\<exists>dt. r = Some dt \<and> (\<exists>f \<in> set supported_formats.
           date_in_format f (strip s) = Some (year dt, month dt, day dt))"
proof -
  from assms obtain dt where r: "r = Some dt" and t: "try_formats s date_formats = Inr dt"
    by (auto simp: parse_date_def split: sum.splits)
  from try_formats_sound [OF t] obtain fmt where
    f: "fmt \<in> set date_formats" "strptime (strip s) fmt = Inr dt" by blast
  from f(1) consider "fmt = [Dir_d, Lit 45, Dir_m, Lit 45, Dir_Y]"
    | "fmt = [Dir_d, Lit 47, Dir_m, Lit 47, Dir_Y]" | "fmt = [Dir_Y, Lit 45, Dir_m, Lit 45, Dir_d]"
    | "fmt = [Dir_Y, Lit 47, Dir_m, Lit 47, Dir_d]" | "fmt = [Dir_d, Lit 46, Dir_m, Lit 46, Dir_Y]"
    by (auto simp: date_formats_def)
  then have "\<exists>f \<in> set supported_formats.
      date_in_format f (strip s) = Some (year dt, month dt, day dt)"
  proof cases
    case 1
    then show ?thesis using strptime_sound_DMY [of "strip s" 45 dt] f(2)
      by (simp add: supported_formats_def del: date_in_format.simps)
  next
    case 2
    then show ?thesis using strptime_sound_DMY [of "strip s" 47 dt] f(2)
      by (simp add: supported_formats_def del: date_in_format.simps)
  next
    case 3
    then show ?thesis using strptime_sound_YMD [of "strip s" 45 dt] f(2)
      by (simp add: supported_formats_def del: date_in_format.simps)
  next
    case 4
    then show ?thesis using strptime_sound_YMD [of "strip s" 47 dt] f(2)
      by (simp add: supported_formats_def del: date_in_format.simps)
  next
    case 5
    then show ?thesis using strptime_sound_DMY [of "strip s" 46 dt] f(2)
      by (simp add: supported_formats_def del: date_in_format.simps)
  qed
  with r show ?thesis by blast
qed



section \<open>Properties of computations\<close>

lemma no_raise_return [simp]: "no_raise (io_return x)"
  by (simp add: no_raise_def io_return_def)

lemma no_raise_bind:
  "no_raise m \<Longrightarrow> (\<And>x. no_raise (f x)) \<Longrightarrow> no_raise (io_bind m f)"
  unfolding no_raise_def io_bind_def
  by (auto split: prod.splits sum.splits) (metis Inl_Inr_False fst_conv)+

lemma no_raise_seq: "no_raise m \<Longrightarrow> no_raise k \<Longrightarrow> no_raise (io_seq m k)"
  by (simp add: io_seq_def no_raise_bind)

lemma no_raise_try: "(\<And>e. no_raise (h e)) \<Longrightarrow> no_raise (io_try m h)"
  unfolding no_raise_def io_try_def
  by (auto split: prod.splits sum.splits) (metis Inl_Inr_False fst_conv)+

lemma no_raise_attempt [simp]: "no_raise (io_attempt m)"
  by (simp add: io_attempt_def no_raise_try)

lemma no_raise_note [simp]: "no_raise (note_event ev)"
  by (simp add: no_raise_def note_event_def)

lemma traces_in_return [simp]: "traces_in P (io_return x)"
  by (simp add: traces_in_def io_return_def)

lemma traces_in_raise [simp]: "traces_in P (io_raise e)"
  by (simp add: traces_in_def io_raise_def)

lemma traces_in_bind:
  "traces_in P m \<Longrightarrow> (\<And>x. traces_in P (f x)) \<Longrightarrow> traces_in P (io_bind m f)"
  unfolding traces_in_def io_bind_def
  by (auto split: prod.splits sum.splits) (metis snd_conv)+

lemma traces_in_seq: "traces_in P m \<Longrightarrow> traces_in P k \<Longrightarrow> traces_in P (io_seq m k)"
  by (simp add: io_seq_def traces_in_bind)

lemma traces_in_try:
  "traces_in P m \<Longrightarrow> (\<And>e. traces_in P (h e)) \<Longrightarrow> traces_in P (io_try m h)"
  unfolding traces_in_def io_try_def
  by (auto split: prod.splits sum.splits) (metis snd_conv)+

lemma traces_in_attempt: "traces_in P m \<Longrightarrow> traces_in P (io_attempt m)"
  by (simp add: io_attempt_def traces_in_try traces_in_seq)

lemma traces_in_perform: "P (Did a) \<Longrightarrow> traces_in P (perform drv a)"
  by (simp add: traces_in_def perform_def split: prod.splits)

lemma traces_in_note: "P ev \<Longrightarrow> traces_in P (note_event ev)"
  by (simp add: traces_in_def note_event_def)

lemma traces_in_await [simp]: "traces_in P (await drv x)"
  by (simp add: traces_in_def await_def split: prod.splits)

lemma traces_in_count [simp]: "traces_in P (count drv loc)"
  by (simp add: traces_in_def count_def split: prod.splits)

lemma traces_in_is_visible [simp]: "traces_in P (is_visible drv loc)"
  by (simp add: traces_in_def is_visible_def split: prod.splits)

lemma traces_in_get_attribute [simp]: "traces_in P (get_attribute drv loc a)"
  by (simp add: traces_in_def get_attribute_def split: prod.splits)

lemma traces_in_text_content [simp]: "traces_in P (text_content drv loc)"
  by (simp add: traces_in_def text_content_def split: prod.splits)

lemma traces_in_title [simp]: "traces_in P (title drv)"
  by (simp add: traces_in_def title_def split: prod.splits)

lemma traces_in_get_by_role [simp]: "traces_in P (get_by_role drv r)"
  by (simp add: traces_in_def get_by_role_def split: prod.splits)

lemma traces_in_all_of [simp]: "traces_in P (all_of drv loc)"
  by (simp add: all_of_def traces_in_bind)

lemma traces_inD: "traces_in P m \<Longrightarrow> m s = (r, s', t) \<Longrightarrow> list_all P t"
  by (auto simp: traces_in_def) (metis snd_conv)

lemma no_raiseD: "no_raise m \<Longrightarrow> m s = (r, s', t) \<Longrightarrow> \<exists>x. r = Inr x"
  by (auto simp: no_raise_def) (metis fst_conv)

lemma returns_in_return [simp]: "returns_in Q (io_return x) \<longleftrightarrow> Q x"
  by (simp add: returns_in_def io_return_def)

lemma returns_in_bind: "(\<And>x. returns_in Q (f x)) \<Longrightarrow> returns_in Q (io_bind m f)"
  unfolding returns_in_def io_bind_def
  by (auto split: prod.splits sum.splits) (metis fst_conv sum.simps(6))

lemma returns_in_seq: "returns_in Q k \<Longrightarrow> returns_in Q (io_seq m k)"
  by (simp add: io_seq_def returns_in_bind)

lemma returns_inD: "returns_in Q m \<Longrightarrow> m s = (Inr x, s', t) \<Longrightarrow> Q x"
  by (auto simp: returns_in_def split: sum.splits) (metis fst_conv sum.simps(6))

lemma returns_in_bind_strong:
  assumes "returns_in R m" "\<And>x. R x \<Longrightarrow> returns_in Q (f x)"
  shows "returns_in Q (io_bind m f)"
  unfolding returns_in_def
proof
  fix s
  obtain r s1 t1 where m: "m s = (r, s1, t1)" by (cases "m s") auto
  show "case fst (io_bind m f s) of Inl e \<Rightarrow> True | Inr x \<Rightarrow> Q x"
  proof (cases r)
    case (Inl e)
    then show ?thesis using m by (simp add: io_bind_def)
  next
    case (Inr x)
    then have "R x" using assms(1) m by (auto simp: returns_in_def split: sum.splits) (metis fst_conv sum.simps(6))
    from assms(2) [OF this] have "case fst (f x s1) of Inl e \<Rightarrow> True | Inr y \<Rightarrow> Q y"
      by (simp add: returns_in_def)
    then show ?thesis using m Inr by (auto simp: io_bind_def split: prod.splits)
  qed
qed

lemma returns_in_try:
  assumes "returns_in Q m" "\<And>e. returns_in Q (h e)"
  shows "returns_in Q (io_try m h)"
  unfolding returns_in_def
proof
  fix s
  obtain r s1 t1 where m: "m s = (r, s1, t1)" by (cases "m s") auto
  show "case fst (io_try m h s) of Inl e \<Rightarrow> True | Inr x \<Rightarrow> Q x"
  proof (cases r)
    case (Inr x)
    then have "Q x" using assms(1) m by (auto simp: returns_in_def split: sum.splits) (metis fst_conv sum.simps(6))
    then show ?thesis using m Inr by (simp add: io_try_def)
  next
    case (Inl e)
    from assms(2) [of e] have "case fst (h e s1) of Inl e \<Rightarrow> True | Inr y \<Rightarrow> Q y"
      by (simp add: returns_in_def)
    then show ?thesis using m Inl by (auto simp: io_try_def split: prod.splits)
  qed
qed

lemma returns_in_yields: "returns_in (yields m) m"
  unfolding returns_in_def yields_def
proof
  fix s
  obtain r s' t where m: "m s = (r, s', t)" by (cases "m s") auto
  show "case fst (m s) of Inl e \<Rightarrow> True | Inr x \<Rightarrow> \<exists>s s' t. m s = (Inr x, s', t)"
    using m by (cases r) auto
qed

lemma io_bind_return_left: "io_bind (io_return x) f = f x"
  by (rule ext) (simp add: io_bind_def io_return_def split: prod.splits)

section \<open>Properties of the page readers\<close>

lemmas traces_in_intros =
  traces_in_bind traces_in_seq traces_in_try traces_in_attempt traces_in_perform traces_in_note


lemma find_in_headings_scrolls: "traces_in is_scroll (find_in_headings drv t hs)"
  by (induction hs) (auto intro!: traces_in_intros)

lemma find_date_on_page_scrolls: "traces_in is_scroll (find_date_on_page drv t)"
  unfolding find_date_on_page_def
  by (auto intro!: traces_in_intros find_in_headings_scrolls)

lemma find_date_on_page_no_raise: "no_raise (find_date_on_page drv t)"
  unfolding find_date_on_page_def by (rule no_raise_try) simp

lemma collect_dates_scrolls: "list_all is_scroll (snd (snd (collect_dates drv hs dates s)))"
proof (induction hs arbitrary: dates s)
  case Nil
  then show ?case by simp
next
  case (Cons h hs)
  have a: "traces_in is_scroll
      (io_attempt (io_seq (perform drv (Scroll_into_view h)) (await drv Timeout)))"
    by (auto intro!: traces_in_intros)
  show ?case
    using Cons.IH traces_inD [OF a] traces_inD [OF traces_in_text_content [of is_scroll drv h]]
    by (auto split: prod.splits sum.splits) (metis snd_conv)
qed

lemma get_dates_on_page_scrolls: "traces_in is_scroll (get_dates_on_page drv)"
proof -
  have a: "traces_in is_scroll
     (io_seq (await drv Load_state)
           (io_seq (perform drv Scroll_window)
           (io_seq (await drv Timeout)
           (io_seq (io_attempt (await drv (For_selector DATE_HEADING)))
              (all_of drv (Locator DATE_HEADING))))))"
    by (auto intro!: traces_in_intros)
  show ?thesis
    unfolding traces_in_def get_dates_on_page_def
    using traces_inD [OF a] collect_dates_scrolls [of drv]
    by (auto split: prod.splits sum.splits) (metis snd_conv)
qed

lemma get_dates_on_page_no_raise: "no_raise (get_dates_on_page drv)"
  by (auto simp: no_raise_def get_dates_on_page_def split: prod.splits sum.splits)

lemma get_dates_on_page_sorted:
  "get_dates_on_page drv s = (Inr dates, s', t) \<Longrightarrow> sorted (map dt_key dates)"
  by (auto simp: get_dates_on_page_def split: prod.splits sum.splits)

lemma sorted_hd_least:
  assumes "sorted (map dt_key dates)" "d \<in> set dates" "\<not> dt_less target d"
  shows "\<not> dt_less target (hd dates)"
proof -
  from assms(2) obtain x xs where xs: "dates = x # xs" by (cases dates) auto
  with assms(1,2) have "dt_key x \<le> dt_key d" by auto
  with assms(3) show ?thesis by (auto simp: dt_less_def xs)
qed

lemma sorted_le_last: "sorted (xs :: 'a :: linorder list) \<Longrightarrow> x \<in> set xs \<Longrightarrow> x \<le> last xs"
  by (induction xs) auto

lemma sorted_last_greatest:
  assumes "sorted (map dt_key dates)" "d \<in> set dates" "\<not> dt_less d target"
  shows "\<not> dt_less (last dates) target"
proof -
  from assms(2) have ne: "dates \<noteq> []" by auto
  have "dt_key d \<in> set (map dt_key dates)" using assms(2) by simp
  from sorted_le_last [OF assms(1) this] have "dt_key d \<le> dt_key (last dates)"
    using ne by (simp add: last_map)
  with assms(3) show ?thesis by (auto simp: dt_less_def)
qed

lemma date_search_at_start:
  assumes "is_decimal a" "is_decimal b" "is_decimal d" "is_decimal e"
    "is_decimal g" "is_decimal h" "is_decimal i" "is_decimal j"
  shows "date_search (a # b # 47 # d # e # 47 # g # h # i # j # r) = Some ([a, b], [d, e], [g, h, i, j])"
  using assms by (subst date_search.simps) (simp del: date_search.simps)

lemma heading_date_rendered:
  assumes "valid_date y m d"
  shows "heading_date (Some (render (DMY, 47) \<lparr>year = y, month = m, day = d, micros = 0\<rparr> @ r))
         = [\<lparr>year = y, month = m, day = d, micros = 0\<rparr>]"
proof -
  note b = valid_date_bounds [OF assms]
  have "date_search (render (DMY, 47) \<lparr>year = y, month = m, day = d, micros = 0\<rparr> @ r)
        = Some (pad2 d, pad2 m, pad4 y)"
    by (simp add: pad2_def pad4_def date_search_at_start del: date_search.simps)
  then show ?thesis
    using b assms
    by (simp add: heading_date_def truthy_def str_of_def py_int_pad2 py_int_pad4)
qed

lemma two_headings_dates:
  "get_dates_on_page two_headings_page ()
      = (Inr [\<lparr>year = 2026, month = 1, day = 20, micros = 0\<rparr>,
              \<lparr>year = 2026, month = 1, day = 22, micros = 0\<rparr>], (),
         [Did Scroll_window,
          Did (Scroll_into_view (Nth (Locator DATE_HEADING) 0)),
          Did (Scroll_into_view (Nth (Locator DATE_HEADING) 1))])"
proof -
  have v: "valid_date 2026 1 20" "valid_date 2026 1 22"
    by (simp_all add: valid_date_def days_in_month_def)
  have a: "ascii ''20/01/2026'' = render (DMY, 47) \<lparr>year = 2026, month = 1, day = 20, micros = 0\<rparr> @ []"
    "ascii ''22/01/2026'' = render (DMY, 47) \<lparr>year = 2026, month = 1, day = 22, micros = 0\<rparr> @ []"
    by (simp_all add: ascii_def pad2_def pad4_def)
  have h: "heading_date (Some (ascii ''20/01/2026'')) = [\<lparr>year = 2026, month = 1, day = 20, micros = 0\<rparr>]"
    "heading_date (Some (ascii ''22/01/2026'')) = [\<lparr>year = 2026, month = 1, day = 22, micros = 0\<rparr>]"
    unfolding a by (rule heading_date_rendered, rule v)+
  have u: "[0..<2] = [0, Suc 0]" by (simp add: upt_rec)
  show ?thesis
    by (simp add: get_dates_on_page_def io_seq_def io_bind_def io_attempt_def io_try_def
        io_return_def await_def perform_def all_of_def count_def text_content_def
        two_headings_page_def h u dt_key_def)
qed

section \<open>Properties of navigate_to_date_page\<close>

text \<open>
  C5: when the target date is not found on the current page and the dates parsed from
  the page are not empty, with one of them not after the target and one of them not
  before it (so the earliest is not after it and the latest not before it), the call
  returns \<open>False\<close>; its trace is that of the two readings of the page, which only
  scroll: no button is looked for and nothing is clicked.
\<close>

theorem navigate_within_range_fails:
  assumes f: "find_date_on_page drv (strftime_display target_date) s = (Inr False, s1, t1)"
    and g: "get_dates_on_page drv s1 = (Inr dates, s2, t2)"
    and lo: "\<exists>d \<in> set dates. \<not> dt_less target_date d"
    and hi: "\<exists>d \<in> set dates. \<not> dt_less d target_date"
  shows "navigate_to_date_page drv target_date s = (Inr False, s2, t1 @ t2)
         \<and> list_all is_scroll (t1 @ t2)"
proof -
  note srt = get_dates_on_page_sorted [OF g]
  from lo obtain d1 where "d1 \<in> set dates" "\<not> dt_less target_date d1" by blast
  then have a: "\<not> dt_less target_date (hd dates)" by (rule sorted_hd_least [OF srt])
  from hi obtain d2 where "d2 \<in> set dates" "\<not> dt_less d2 target_date" by blast
  then have b: "\<not> dt_less (last dates) target_date" by (rule sorted_last_greatest [OF srt])
  from lo have ne: "dates \<noteq> []" by auto
  have "navigate_to_date_page drv target_date s = (Inr False, s2, t1 @ t2)"
    using f g a b ne by (simp add: navigate_to_date_page_def io_bind_def io_return_def)
  moreover have "list_all is_scroll t1" "list_all is_scroll t2"
    using traces_inD [OF find_date_on_page_scrolls f] traces_inD [OF get_dates_on_page_scrolls g]
    by auto
  ultimately show ?thesis by simp
qed

theorem navigate_within_range_fails_witness:
  "navigate_to_date_page two_headings_page \<lparr>year = 2026, month = 1, day = 21, micros = 0\<rparr> ()
   = (Inr False, (),
      [Did Scroll_window, Did Scroll_window,
       Did (Scroll_into_view (Nth (Locator DATE_HEADING) 0)),
       Did (Scroll_into_view (Nth (Locator DATE_HEADING) 1)),
       Did Scroll_window,
       Did (Scroll_into_view (Nth (Locator DATE_HEADING) 0)),
       Did (Scroll_into_view (Nth (Locator DATE_HEADING) 1))])"
proof -
  let ?target = "\<lparr>year = 2026, month = 1, day = 21, micros = 0\<rparr>"
  let ?dates = "[\<lparr>year = 2026, month = 1, day = 20, micros = 0\<rparr>,
                 \<lparr>year = 2026, month = 1, day = 22, micros = 0\<rparr>]"
  have f: "find_date_on_page two_headings_page (strftime_display ?target) ()
      = (Inr False, (),
         [Did Scroll_window, Did Scroll_window,
          Did (Scroll_into_view (Nth (Locator DATE_HEADING) 0)),
          Did (Scroll_into_view (Nth (Locator DATE_HEADING) 1))])"
    by code_simp
  have lo: "\<exists>d \<in> set ?dates. \<not> dt_less ?target d"
    by (simp add: dt_less_def dt_key_def)
  have hi: "\<exists>d \<in> set ?dates. \<not> dt_less d ?target"
    by (simp add: dt_less_def dt_key_def)
  show ?thesis using navigate_within_range_fails [OF f two_headings_dates lo hi] by simp
qed

section \<open>Properties of the navigation clicks\<close>

lemma traces_in_mono: "traces_in P m \<Longrightarrow> (\<And>ev. P ev \<Longrightarrow> Q ev) \<Longrightarrow> traces_in Q m"
  by (auto simp: traces_in_def list_all_iff)

lemma scroll_is_did: "is_scroll ev \<Longrightarrow> is_did ev"
  by (cases ev) auto

lemma scroll_not_click: "is_scroll ev \<Longrightarrow> \<not> is_click ev"
  by (cases ev rule: is_scroll.cases) auto

lemma clicks_append [simp]: "clicks (t @ u) = clicks t + clicks u"
  by (simp add: clicks_def)

lemma clicks_scrolls: "list_all is_scroll t \<Longrightarrow> clicks t = 0"
  by (induction t) (auto simp: clicks_def scroll_not_click)

lemma click_bound_scroll: "traces_in is_scroll m \<Longrightarrow> click_bound n m"
  by (simp add: click_bound_def traces_in_def clicks_scrolls)

lemma click_bound_perform: "click_bound (Suc n) (perform drv a)"
  by (auto simp: click_bound_def perform_def clicks_def split: prod.splits)

lemma click_bound_bind:
  assumes "click_bound a m" "\<And>x. click_bound b (f x)"
  shows "click_bound (a + b) (io_bind m f)"
  unfolding click_bound_def
proof
  fix s
  obtain r s1 t1 where m: "m s = (r, s1, t1)" by (cases "m s") auto
  have a: "clicks t1 \<le> a" using assms(1) m by (auto simp: click_bound_def) (metis snd_conv)
  show "clicks (snd (snd (io_bind m f s))) \<le> a + b"
  proof (cases r)
    case (Inl e)
    then show ?thesis using m a by (simp add: io_bind_def)
  next
    case (Inr x)
    obtain r2 s2 t2 where f: "f x s1 = (r2, s2, t2)" by (cases "f x s1") auto
    have "clicks t2 \<le> b" using assms(2) [of x] f by (auto simp: click_bound_def) (metis snd_conv)
    then show ?thesis using m a f Inr by (simp add: io_bind_def)
  qed
qed

lemma click_bound_try:
  assumes "click_bound a m" "\<And>e. click_bound b (h e)"
  shows "click_bound (a + b) (io_try m h)"
  unfolding click_bound_def
proof
  fix s
  obtain r s1 t1 where m: "m s = (r, s1, t1)" by (cases "m s") auto
  have a: "clicks t1 \<le> a" using assms(1) m by (auto simp: click_bound_def) (metis snd_conv)
  show "clicks (snd (snd (io_try m h s))) \<le> a + b"
  proof (cases r)
    case (Inr x)
    then show ?thesis using m a by (simp add: io_try_def)
  next
    case (Inl e)
    obtain r2 s2 t2 where f: "h e s1 = (r2, s2, t2)" by (cases "h e s1") auto
    have "clicks t2 \<le> b" using assms(2) [of e] f by (auto simp: click_bound_def) (metis snd_conv)
    then show ?thesis using m a f Inl by (simp add: io_try_def)
  qed
qed

lemma click_bound_scroll_then:
  "traces_in is_scroll m \<Longrightarrow> (\<And>x. click_bound n (f x)) \<Longrightarrow> click_bound n (io_bind m f)"
  using click_bound_bind [of 0 m n f] by (simp add: click_bound_scroll)

lemma click_bound_scroll_seq:
  "traces_in is_scroll m \<Longrightarrow> click_bound n k \<Longrightarrow> click_bound n (io_seq m k)"
  by (simp add: io_seq_def click_bound_scroll_then)

lemma click_bound_then_scroll:
  "click_bound n m \<Longrightarrow> (\<And>x. traces_in is_scroll (f x)) \<Longrightarrow> click_bound n (io_bind m f)"
  using click_bound_bind [of n m 0 f] by (simp add: click_bound_scroll)

lemma click_bound_try_scroll:
  "click_bound n m \<Longrightarrow> (\<And>e. traces_in is_scroll (h e)) \<Longrightarrow> click_bound n (io_try m h)"
  using click_bound_try [of n m 0 h] by (simp add: click_bound_scroll)

lemma click_bound_seq_scroll:
  "click_bound n m \<Longrightarrow> traces_in is_scroll k \<Longrightarrow> click_bound n (io_seq m k)"
  by (simp add: io_seq_def click_bound_then_scroll)

lemma try_button_selectors_scrolls: "traces_in is_scroll (try_button_selectors drv sels)"
proof (induction sels)
  case Nil
  then show ?case by simp
next
  case (Cons sel sels)
  have "traces_in is_scroll (probe_button drv btn)" for btn
    unfolding probe_button_def by (auto intro!: traces_in_intros)
  then show ?case using Cons
    by (auto intro!: traces_in_intros split: option.splits)
qed

lemma find_navigation_button_scrolls: "traces_in is_scroll (find_navigation_button drv d)"
  unfolding find_navigation_button_def
  by (auto intro!: traces_in_intros try_button_selectors_scrolls)

lemma click_navigation_button_clicks: "click_bound 2 (click_navigation_button drv b d target)"
proof -
  have c: "click_bound 2 (io_try (perform drv (Click b False)) (\<lambda>e. perform drv (Click b True)))"
    using click_bound_try [of 1 "perform drv (Click b False)" 1 "\<lambda>e. perform drv (Click b True)"]
    by (simp add: click_bound_perform numeral_2_eq_2)
  have r: "traces_in is_scroll
     (io_seq (await drv Load_state)
       (io_bind (find_date_on_page drv (strftime_display target)) (\<lambda>found.
          if found then io_return (True, d)
          else
            io_bind (get_dates_on_page drv) (\<lambda>new_dates.
              io_return
                (False,
                 if new_dates \<noteq> [] then
                   (if dt_less target (hd new_dates) \<and> d = Forward then Backward
                    else if dt_less (last new_dates) target \<and> d = Backward
                    then Forward
                    else d)
                 else d)))))"
    by (auto intro!: traces_in_intros find_date_on_page_scrolls get_dates_on_page_scrolls)
  show ?thesis
    unfolding click_navigation_button_def
    apply (rule click_bound_try_scroll)
     apply (rule click_bound_scroll_seq)
      apply (simp add: traces_in_perform)
     apply (rule click_bound_scroll_seq)
      apply simp
     apply (rule click_bound_scroll_seq)
      apply simp
     apply (rule click_bound_seq_scroll [OF c r])
    apply simp
    done
qed

section \<open>Properties of the search loop\<close>

lemma search_step_turns:
  "returns_in (\<lambda>st. \<forall>nd. st = Turn nd \<longrightarrow> nd = opposite d) (search_step drv target d)"
proof -
  have n: "b \<noteq> Forward \<longleftrightarrow> b = Backward" "b \<noteq> Backward \<longleftrightarrow> b = Forward" for b
    by (cases b; simp)+
  show ?thesis
    unfolding search_step_def
    by (cases d) (auto intro!: returns_in_bind returns_in_seq simp: n split: option.splits)
qed

lemma click_navigation_button_did: "traces_in is_did (click_navigation_button drv b d target)"
  unfolding click_navigation_button_def
  by (auto intro!: traces_in_intros
      traces_in_mono [OF find_date_on_page_scrolls scroll_is_did]
      traces_in_mono [OF get_dates_on_page_scrolls scroll_is_did])

lemma search_step_did: "traces_in is_did (search_step drv target d)"
  unfolding search_step_def
  by (auto intro!: traces_in_intros click_navigation_button_did
      traces_in_mono [OF find_date_on_page_scrolls scroll_is_did]
      traces_in_mono [OF find_navigation_button_scrolls scroll_is_did]
      split: option.splits)

lemma search_step_clicks: "click_bound 2 (search_step drv target d)"
  unfolding search_step_def
  apply (rule click_bound_scroll_then [OF find_navigation_button_scrolls])
  apply (rule click_bound_scroll_seq)
   apply simp
  apply (rule click_bound_scroll_then [OF find_date_on_page_scrolls])
  apply (auto split: option.splits intro!: click_bound_scroll
      click_bound_then_scroll [OF click_navigation_button_clicks])
  done

lemma search_step_facts:
  assumes "search_step drv target d s = (r, s', t)"
  shows "list_all is_did t" and "clicks t \<le> 2" and "r = Inr (Turn nd) \<Longrightarrow> nd = opposite d"
proof -
  show "list_all is_did t" using traces_inD [OF search_step_did assms] .
  show "clicks t \<le> 2"
    using search_step_clicks [of drv target d] assms
    by (auto simp: click_bound_def) (metis snd_conv)
  show "nd = opposite d" if "r = Inr (Turn nd)"
    using returns_inD [OF search_step_turns, of drv target d s "Turn nd" s' t] assms that by simp
qed

lemma single_file_did: "list_all is_did t \<Longrightarrow> single_file d seen (t @ evs) = single_file d seen evs"
proof (induction t)
  case Nil
  then show ?case by simp
next
  case (Cons ev t)
  then show ?case by (cases ev) auto
qed

lemma visits_did: "list_all is_did t \<Longrightarrow> visits (t @ evs) = visits evs"
proof (induction t)
  case Nil
  then show ?case by simp
next
  case (Cons ev t)
  then show ?case by (cases ev) auto
qed

lemma nav_loop_invariant:
  "nav_loop drv target pc d visited s = (r, s', t) \<Longrightarrow>
     single_file (Some d) visited t
     \<and> clicks t \<le> 2 * (MAX_PAGINATION_PAGES - pc)
     \<and> length (visits t) \<le> MAX_PAGINATION_PAGES - pc"
proof (induction drv target pc d visited s arbitrary: r s' t rule: nav_loop.induct)
  case (1 drv target pc d visited s)
  show ?case
  proof (cases "pc < MAX_PAGINATION_PAGES")
    case False
    then show ?thesis using "1.prems" by (simp add: clicks_def)
  next
    case lt: True
    let ?u = "pw_url drv s"
    show ?thesis
    proof (cases "?u \<in> visited")
      case seen: True
      show ?thesis
      proof (cases d)
        case Forward
        obtain r1 s1 t1 where n: "nav_loop drv target (pc + 1) Backward {} s = (r1, s1, t1)"
          by (cases "nav_loop drv target (pc + 1) Backward {} s") auto
        from "1.IH"(1) [OF lt refl seen Forward n]
        have ih: "single_file (Some Backward) {} t1"
          "clicks t1 \<le> 2 * (MAX_PAGINATION_PAGES - (pc + 1))"
          "length (visits t1) \<le> MAX_PAGINATION_PAGES - (pc + 1)" by auto
        have t: "t = Cleared # t1"
          using "1.prems" lt seen Forward n by (simp add: Let_def)
        show ?thesis using ih lt Forward by (simp add: t clicks_def, arith?)
      next
        case Backward
        then show ?thesis using "1.prems" lt seen by (simp add: Let_def clicks_def)
      qed
    next
      case new: False
      obtain rs s1 t1 where st: "search_step drv target d s = (rs, s1, t1)"
        by (cases "search_step drv target d s") auto
      note f = search_step_facts [OF st]
      have v: "single_file (Some d) visited (Visit ?u d # t1 @ evs)
               = single_file (Some d) (insert ?u visited) evs" for evs
        using new by (simp add: single_file_did [OF f(1)])
      have c: "clicks (Visit ?u d # t1 @ evs) \<le> 2 + clicks evs" for evs
        using f(2) by (simp add: clicks_def)
      have l: "length (visits (Visit ?u d # t1 @ evs)) = 1 + length (visits evs)" for evs
        by (simp add: visits_did [OF f(1)])
      show ?thesis
      proof (cases rs)
        case (Inl e)
        then have "t = Visit ?u d # t1 @ []" using "1.prems" lt new st by (simp add: Let_def)
        then show ?thesis using v [of "[]"] c [of "[]"] l [of "[]"] lt
          by (simp add: clicks_def del: append_Nil2, arith?)
      next
        case (Inr step)
        show ?thesis
        proof (cases step)
          case (Return b)
          then have "t = Visit ?u d # t1 @ []" using "1.prems" lt new st Inr by (simp add: Let_def)
          then show ?thesis using v [of "[]"] c [of "[]"] l [of "[]"] lt
            by (simp add: clicks_def del: append_Nil2, arith?)
        next
          case Break
          then have "t = Visit ?u d # t1 @ []" using "1.prems" lt new st Inr by (simp add: Let_def)
          then show ?thesis using v [of "[]"] c [of "[]"] l [of "[]"] lt
            by (simp add: clicks_def del: append_Nil2, arith?)
        next
          case (Turn nd)
          obtain r2 s2 t2 where n: "nav_loop drv target (pc + 1) nd {} s1 = (r2, s2, t2)"
            by (cases "nav_loop drv target (pc + 1) nd {} s1") auto
          have st': "search_step drv target d s = (rs, s1, t1)" by (rule st)
          from "1.IH"(2) [OF lt refl new st [symmetric] Inr Turn refl n]
          have ih: "single_file (Some nd) {} t2"
            "clicks t2 \<le> 2 * (MAX_PAGINATION_PAGES - (pc + 1))"
            "length (visits t2) \<le> MAX_PAGINATION_PAGES - (pc + 1)" by auto
          have nd: "nd = opposite d" using f(3) Inr Turn by simp
          have t: "t = Visit ?u d # t1 @ Cleared # t2"
            using "1.prems" lt new st Inr Turn n by (simp add: Let_def)
          show ?thesis
            using ih nd lt v [of "Cleared # t2"] c [of "Cleared # t2"] l [of "Cleared # t2"]
            by (simp add: t clicks_def, arith?)
        next
          case Go_on
          obtain r2 s2 t2 where
            n: "nav_loop drv target (pc + 1) d (insert ?u visited) s1 = (r2, s2, t2)"
            by (cases "nav_loop drv target (pc + 1) d (insert ?u visited) s1") auto
          from "1.IH"(3) [OF lt refl new st [symmetric] Inr Go_on refl n]
          have ih: "single_file (Some d) (insert ?u visited) t2"
            "clicks t2 \<le> 2 * (MAX_PAGINATION_PAGES - (pc + 1))"
            "length (visits t2) \<le> MAX_PAGINATION_PAGES - (pc + 1)" by auto
          have t: "t = Visit ?u d # t1 @ t2"
            using "1.prems" lt new st Inr Go_on n by (simp add: Let_def)
          show ?thesis
            using ih lt v [of t2] c [of t2] l [of t2]
            by (simp add: t clicks_def, arith?)
        qed
      qed
    qed
  qed
qed

lemma single_file_unknown: "single_file (Some d) seen t \<Longrightarrow> single_file None seen t"
proof (induction t arbitrary: d seen)
  case Nil
  then show ?case by simp
next
  case (Cons ev t)
  then show ?case by (cases ev) auto
qed

lemma navigate_trace:
  assumes n: "navigate_to_date_page drv target s = (r, s', t)"
  shows "single_file None {} t \<and> clicks t \<le> 2 * MAX_PAGINATION_PAGES
         \<and> length (visits t) \<le> MAX_PAGINATION_PAGES"
proof -
  obtain r1 s1 t1 where f: "find_date_on_page drv (strftime_display target) s = (r1, s1, t1)"
    by (cases "find_date_on_page drv (strftime_display target) s") auto
  have d1: "list_all is_did t1" "clicks t1 = 0"
    using traces_inD [OF find_date_on_page_scrolls f]
    by (auto simp: list_all_iff scroll_is_did intro: clicks_scrolls)
  obtain r2 s2 t2 where g: "get_dates_on_page drv s1 = (r2, s2, t2)"
    by (cases "get_dates_on_page drv s1") auto
  have d2: "list_all is_did t2" "clicks t2 = 0"
    using traces_inD [OF get_dates_on_page_scrolls g]
    by (auto simp: list_all_iff scroll_is_did intro: clicks_scrolls)
  have loop: "single_file None {} (t1 @ t2 @ t3) \<and> clicks (t1 @ t2 @ t3) \<le> 2 * MAX_PAGINATION_PAGES
         \<and> length (visits (t1 @ t2 @ t3)) \<le> MAX_PAGINATION_PAGES"
    if "nav_loop drv target 0 d {} s2 = (r3, s3, t3)" for d r3 s3 t3
  proof -
    note i = nav_loop_invariant [OF that]
    have "single_file None {} t3" using i by (blast intro: single_file_unknown)
    then show ?thesis using i d1 d2 by (simp add: single_file_did visits_did)
  qed
  have short: "single_file None {} (t1 @ t2) \<and> clicks (t1 @ t2) \<le> 2 * MAX_PAGINATION_PAGES
         \<and> length (visits (t1 @ t2)) \<le> MAX_PAGINATION_PAGES"
    using d1 d2 single_file_did [of "t1 @ t2" None "{}" "[]"] visits_did [of "t1 @ t2" "[]"]
    by simp
  have first: "single_file None {} t1 \<and> clicks t1 \<le> 2 * MAX_PAGINATION_PAGES
         \<and> length (visits t1) \<le> MAX_PAGINATION_PAGES"
    using d1 single_file_did [of t1 None "{}" "[]"] visits_did [of t1 "[]"]
    by simp
  show ?thesis
  proof (cases r1)
    case (Inl e)
    then have "t = t1" using n f by (simp add: navigate_to_date_page_def io_bind_def)
    then show ?thesis using first by simp
  next
    case found: (Inr found)
    show ?thesis
    proof (cases found)
      case True
      then have "t = t1"
        using n f found by (simp add: navigate_to_date_page_def io_bind_def io_return_def)
      then show ?thesis using first by simp
    next
      case False
      show ?thesis
      proof (cases r2)
        case (Inl e)
        then have "t = t1 @ t2"
          using n f g found False by (simp add: navigate_to_date_page_def io_bind_def)
        then show ?thesis using short by simp
      next
        case (Inr dates)
        let ?k = "if dates \<noteq> [] then
             (if dt_less target (hd dates) then nav_loop drv target 0 Backward {}
              else if dt_less (last dates) target then nav_loop drv target 0 Forward {}
              else io_return False)
           else nav_loop drv target 0 Forward {}"
        obtain r3 s3 t3 where k: "?k s2 = (r3, s3, t3)" by (cases "?k s2") auto
        have t: "t = t1 @ t2 @ t3"
          using n f g found False Inr k
          by (simp add: navigate_to_date_page_def io_bind_def)
        consider d where "nav_loop drv target 0 d {} s2 = (r3, s3, t3)" | "t3 = []"
          using k by (auto simp: io_return_def split: if_splits)
        then show ?thesis
        proof cases
          case 1
          then show ?thesis using loop t by simp
        next
          case 2
          then show ?thesis using short t by simp
        qed
      qed
    qed
  qed
qed




section \<open>Properties of the extractor\<close>

lemma make_item_subject: "list_all (\<lambda>i. subject i \<noteq> []) (make_item d h sj t st tp hw fs)"
  by (simp add: make_item_def)

lemma row_items_subject: "returns_in (list_all (\<lambda>i. subject i \<noteq> [])) (row_items drv d cells)"
  unfolding row_items_def
  by (auto intro!: returns_in_bind simp: make_item_subject)

lemma extract_rows_subject:
  "list_all (\<lambda>i. subject i \<noteq> []) acc \<Longrightarrow>
   returns_in (list_all (\<lambda>i. subject i \<noteq> [])) (extract_rows drv d rows acc)"
proof (induction rows arbitrary: acc)
  case Nil
  then show ?case by simp
next
  case (Cons row rows)
  show ?case
    apply simp
    apply (rule returns_in_bind)
    apply (rule returns_in_bind_strong [OF row_items_subject])
    apply (rule Cons.IH)
    using Cons.prems apply simp
    done
qed

lemma extract_homework_subject:
  "returns_in (list_all (\<lambda>i. subject i \<noteq> [])) (extract_homework drv now target)"
  unfolding extract_homework_def extract_homework_body_def extract_table_data_def Let_def
  by (auto intro!: returns_in_try returns_in_seq returns_in_bind extract_rows_subject
      split: option.splits)

lemma extract_homework_no_raise: "no_raise (extract_homework drv now target)"
  unfolding extract_homework_def by (rule no_raise_try) simp

lemma row_items_short: "length cells < 6 \<Longrightarrow> row_items drv d cells = io_return []"
  by (simp add: row_items_def)

lemma make_item_files: "list_all (\<lambda>i. attached_files i = fs) (make_item d h sj t st tp hw fs)"
  by (simp add: make_item_def)

lemma row_items_no_files:
  "length cells = 6 \<Longrightarrow>
   returns_in (list_all (\<lambda>i. attached_files i = [])) (row_items drv d cells)"
  by (simp add: row_items_def io_bind_return_left) (intro returns_in_bind, simp add: make_item_files)

lemma row_items_files:
  assumes "6 < length cells"
  shows "returns_in (list_all (\<lambda>i. yields (extract_attached_files drv (cells ! 6)) (attached_files i)))
           (row_items drv d cells)"
proof -
  have "returns_in (list_all (\<lambda>i. yields (extract_attached_files drv (cells ! 6)) (attached_files i)))
          (io_bind (extract_attached_files drv (cells ! 6))
             (\<lambda>files. io_return (make_item d h sj t st tp hw files)))" for h sj t st tp hw
    by (rule returns_in_bind_strong [OF returns_in_yields]) (simp add: make_item_def)
  then show ?thesis
    using assms
    by (simp add: row_items_def)
       (rule returns_in_bind, rule returns_in_bind, rule returns_in_bind, rule returns_in_bind,
        rule returns_in_bind, rule returns_in_bind)
qed

lemma row_items_kept:
  assumes "6 \<le> length cells"
  shows "returns_in (\<lambda>items. \<exists>sj. yields (extract_subject drv (cells ! 1)) sj \<and> (items = [] \<longleftrightarrow> sj = []))
           (row_items drv d cells)"
proof -
  have "returns_in (\<lambda>items. \<exists>sj. yields (extract_subject drv (cells ! 1)) sj \<and> (items = [] \<longleftrightarrow> sj = []))
          (io_bind (extract_subject drv (cells ! 1)) (\<lambda>subject_text.
           io_bind (extract_cell_text drv (cells ! 2)) (\<lambda>teacher_text.
           io_bind (extract_cell_text drv (cells ! 3)) (\<lambda>status_text.
           io_bind (extract_cell_text drv (cells ! 4)) (\<lambda>topic.
           io_bind (extract_cell_text drv (cells ! 5)) (\<lambda>homework_text.
           io_bind (if length cells > 6 then extract_attached_files drv (cells ! 6)
                    else io_return []) (\<lambda>files.
             io_return
               (make_item d h subject_text teacher_text status_text topic
                  homework_text files))))))))" for h
    apply (rule returns_in_bind_strong [OF returns_in_yields])
    apply (intro returns_in_bind)
    apply (simp add: make_item_def)
    apply blast
    done
  then show ?thesis
    using assms by (simp only: row_items_def if_True) (rule returns_in_bind)
qed

subsection \<open>The example homework page\<close>

lemma fst_bind_unit:
  "fst (io_bind m f (u::unit)) = (case fst (m ()) of Inl e \<Rightarrow> Inl e | Inr x \<Rightarrow> fst (f x ()))"
  by (cases "m ()") (auto simp: io_bind_def split: sum.splits prod.splits)

lemma fst_seq_unit:
  "fst (io_seq m k (u::unit)) = (case fst (m ()) of Inl e \<Rightarrow> Inl e | Inr x \<Rightarrow> fst (k ()))"
  by (simp add: io_seq_def fst_bind_unit)

lemma fst_try_unit:
  "fst (io_try m h (u::unit)) = (case fst (m ()) of Inl e \<Rightarrow> fst (h e ()) | Inr x \<Rightarrow> Inr x)"
  by (cases "m ()") (auto simp: io_try_def split: sum.splits prod.splits)

lemma fst_attempt_unit: "fst (io_attempt m (u::unit)) = Inr ()"
  by (cases "m ()") (auto simp: io_attempt_def io_try_def io_bind_def io_seq_def io_return_def
      split: sum.splits prod.splits)

lemma example_date: "strftime_display \<lparr>year = 2026, month = 1, day = 21, micros = 0\<rparr> = ascii ''21/01/2026''"
  by (simp add: strftime_display_def ascii_def pad2_def pad4_def)

lemma example_found:
  "fst (find_date_on_page (homework_page b) (ascii ''21/01/2026'') ()) = Inr True"
  by (cases b; code_simp)

lemma example_heading:
  "fst (find_date_heading (homework_page b) (ascii ''21/01/2026'') ())
     = Inr (Some (Nth (Locator DATE_HEADING) 0))"
  by (cases b; code_simp)

lemma example_table:
  "fst (find_date_table (homework_page b) (ascii ''21/01/2026'') (Nth (Locator DATE_HEADING) 0) ())
     = Inr (Some example_table)"
  by (cases b; code_simp)


lemmas io_defs = io_bind_def io_seq_def io_try_def io_attempt_def io_return_def
  perform_def await_def count_def text_content_def get_attribute_def all_of_def
  is_visible_def element_handle_def

lemmas example_defs = homework_page_def example_cell_def example_row_def example_table_def
  example_link_def

lemma clean_examples:
  "clean_cell_text (Some (ascii ''1'')) = ascii ''1''"
  "clean_cell_text (Some (ascii ''Cohen'')) = ascii ''Cohen''"
  "clean_cell_text (Some (ascii ''present'')) = ascii ''present''"
  "clean_cell_text (Some (ascii ''---'')) = ascii ''---''"
  "clean_cell_text (Some (ascii ''p. 45'')) = ascii ''p. 45''"
  by (simp_all add: clean_cell_text_def truthy_def str_of_def ascii_def py_split_def is_space_def
      strip_def LESSON_TOPIC_LABEL_def HOMEWORK_LABEL_def)

lemma strip_examples:
  "strip (ascii ''Math'') = ascii ''Math''" "strip (ascii ''file'') = ascii ''file''"
  by (simp_all add: ascii_def is_space_def strip_def)

lemma example_cells:
  "extract_cell_text (homework_page b) (example_cell 0) s = (Inr (ascii ''1''), s, [])"
  "extract_cell_text (homework_page b) (example_cell 2) s = (Inr (ascii ''Cohen''), s, [])"
  "extract_cell_text (homework_page b) (example_cell 3) s = (Inr (ascii ''present''), s, [])"
  "extract_cell_text (homework_page b) (example_cell 4) s = (Inr (ascii ''---''), s, [])"
  "extract_cell_text (homework_page b) (example_cell 5) s = (Inr (ascii ''p. 45''), s, [])"
  by (simp_all add: extract_cell_text_def io_defs example_defs clean_examples)

lemma example_subject:
  "extract_subject (homework_page b) (example_cell 1) s = (Inr (ascii ''Math''), s, [])"
  by (simp add: extract_subject_def io_defs example_defs strip_examples truthy_def str_of_def)

lemma example_files:
  "extract_attached_files (homework_page b) (example_cell 6) s
     = (Inr [Link (ascii ''f.pdf'') (ascii ''file'')], s, [])"
  by (simp add: extract_attached_files_def io_defs example_defs strip_examples truthy_def str_of_def)
     (simp add: ascii_def)

lemma example_combined: "combine_content (ascii ''---'') (ascii ''p. 45'') = ascii ''p. 45''"
  by (simp add: combine_content_def ascii_def EMPTY_LESSON_PLACEHOLDER_def
      NO_HOMEWORK_PLACEHOLDER_def)

lemma example_cells_nth:
  "map (Nth (Inside (example_row 0) TABLE_CELLS)) [0..<Suc (Suc n)] ! 0 = example_cell 0"
  "map (Nth (Inside (example_row 0) TABLE_CELLS)) [0..<Suc (Suc n)] ! 1 = example_cell 1"
  "map (Nth (Inside (example_row 0) TABLE_CELLS)) [0..<Suc (Suc (Suc n))] ! 2 = example_cell 2"
  "map (Nth (Inside (example_row 0) TABLE_CELLS)) [0..<Suc (Suc (Suc (Suc n)))] ! 3 = example_cell 3"
  "map (Nth (Inside (example_row 0) TABLE_CELLS)) [0..<Suc (Suc (Suc (Suc (Suc n))))] ! 4 = example_cell 4"
  "map (Nth (Inside (example_row 0) TABLE_CELLS)) [0..<Suc (Suc (Suc (Suc (Suc (Suc n)))))] ! 5
     = example_cell 5"
  "map (Nth (Inside (example_row 0) TABLE_CELLS)) [0..<Suc (Suc (Suc (Suc (Suc (Suc (Suc n))))))] ! 6
     = example_cell 6"
  by (simp_all add: example_cell_def del: upt_Suc)

lemma six_seven: "(6::nat) = Suc (Suc (Suc (Suc (Suc (Suc 0)))))" "(7::nat) = Suc (Suc (Suc (Suc (Suc (Suc (Suc 0))))))"
  by simp_all

lemma example_row_items:
  "row_items (homework_page b) (ascii ''21/01/2026'')
     (map (Nth (Inside (example_row 0) TABLE_CELLS)) [0..<7]) s = (Inr [example_item], s, [])"
proof -
  have n: "length (map (Nth (Inside (example_row 0) TABLE_CELLS)) [0..<7]) = 7" by simp
  show ?thesis
    unfolding row_items_def n
    unfolding six_seven(2) example_cells_nth
    by (simp add: io_bind_def io_return_def example_cells example_subject example_files
        make_item_def example_combined example_item_def del: One_nat_def)
       (simp add: ascii_def)
qed

lemma example_row_items_six:
  "row_items (homework_page b) (ascii ''21/01/2026'')
     (map (Nth (Inside (example_row 0) TABLE_CELLS)) [0..<6]) s
     = (Inr [example_item \<lparr>attached_files := []\<rparr>], s, [])"
proof -
  have n: "length (map (Nth (Inside (example_row 0) TABLE_CELLS)) [0..<6]) = 6" by simp
  show ?thesis
    unfolding row_items_def n
    unfolding six_seven(1) example_cells_nth
    by (simp add: io_bind_def io_return_def example_cells example_subject example_files
        make_item_def example_combined example_item_def del: One_nat_def)
       (simp add: ascii_def)
qed

lemma example_all_rows:
  "all_of (homework_page b) (Inside example_table TABLE_BODY_ROWS) s
     = (Inr [example_row 0, example_row 1], s, [])"
  by (simp add: all_of_def count_def io_bind_def io_return_def homework_page_def example_row_def
      upt_rec)

lemma example_all_cells:
  "all_of (homework_page b) (Inside (example_row 0) TABLE_CELLS) s
     = (Inr (map (Nth (Inside (example_row 0) TABLE_CELLS)) [0..<7]), s, [])"
  by (simp add: all_of_def count_def io_bind_def io_return_def homework_page_def example_row_def
      example_table_def)

lemma example_short_cells:
  "all_of (homework_page False) (Inside (example_row 1) TABLE_CELLS) s
     = (Inr (map (Nth (Inside (example_row 1) TABLE_CELLS)) [0..<5]), s, [])"
  by (simp add: all_of_def count_def io_bind_def io_return_def homework_page_def example_row_def
      example_table_def)

lemma example_broken_cells:
  "all_of (homework_page True) (Inside (example_row 1) TABLE_CELLS) s = (Inl DriverError, s, [])"
  by (simp add: all_of_def count_def io_bind_def io_return_def homework_page_def example_row_def
      example_table_def)

lemma example_short_row_items:
  "row_items drv d (map (Nth (Inside (example_row 1) TABLE_CELLS)) [0..<5]) = io_return []"
  by (simp add: row_items_def)

lemma example_first_row:
  "extract_rows (homework_page b) (ascii ''21/01/2026'') [example_row 0] [] s
     = (Inr [example_item], s, [])"
  by (simp add: io_bind_def example_all_cells example_row_items io_return_def)

lemma example_second_row_broken:
  "extract_rows (homework_page True) (ascii ''21/01/2026'') [example_row 1] [example_item] s
     = (Inl DriverError, s, [])"
  by (simp add: io_bind_def example_broken_cells del: One_nat_def)

lemma example_rows:
  "extract_rows (homework_page False) (ascii ''21/01/2026'') [example_row 0, example_row 1] [] s
     = (Inr [example_item], s, [])"
  by (simp add: io_bind_def example_all_cells example_row_items example_short_cells
      example_short_row_items io_return_def del: One_nat_def)

lemma example_rows_broken:
  "extract_rows (homework_page True) (ascii ''21/01/2026'') [example_row 0, example_row 1] [] s
     = (Inl DriverError, s, [])"
  by (simp add: io_bind_def example_all_cells example_row_items example_broken_cells
      del: One_nat_def)

lemma example_table_data:
  "fst (extract_table_data (homework_page False) example_table (ascii ''21/01/2026'') ())
     = Inr [example_item]"
  by (simp add: extract_table_data_def fst_seq_unit fst_bind_unit fst_attempt_unit
      example_all_rows example_rows del: extract_rows.simps One_nat_def)

lemma example_table_data_broken:
  "fst (extract_table_data (homework_page True) example_table (ascii ''21/01/2026'') ())
     = Inl DriverError"
  by (simp add: extract_table_data_def fst_seq_unit fst_bind_unit fst_attempt_unit
      example_all_rows example_rows_broken del: extract_rows.simps One_nat_def)

lemma example_await: "fst (await (homework_page b) w ()) = Inr ()"
  by (simp add: await_def homework_page_def)

lemma example_body:
  "fst (extract_homework_body (homework_page b) \<lparr>year = 2026, month = 1, day = 21, micros = 0\<rparr>
          None ())
     = fst (extract_table_data (homework_page b) example_table (ascii ''21/01/2026'') ())"
  by (simp add: extract_homework_body_def Let_def example_date fst_seq_unit fst_bind_unit
      example_found example_heading example_table example_await io_return_def
      del: One_nat_def)

lemma example_homework:
  "fst (extract_homework (homework_page False) \<lparr>year = 2026, month = 1, day = 21, micros = 0\<rparr>
          None ()) = Inr [example_item]"
  by (simp add: extract_homework_def fst_try_unit example_body example_table_data
      del: One_nat_def)

lemma example_homework_broken:
  "fst (extract_homework (homework_page True) \<lparr>year = 2026, month = 1, day = 21, micros = 0\<rparr>
          None ()) = Inr []"
  by (simp add: extract_homework_def fst_try_unit example_body example_table_data_broken
      io_return_def del: One_nat_def)


text \<open>
  Claim C3, as the code has it: \<open>extract_homework\<close> never raises, from any page and any
  state. When nothing raises it returns the list its body returns; when anything in the
  body raises it returns the empty list, whatever \<open>_extract_table_data\<close> had appended
  to its own list by then.
\<close>

theorem extract_homework_never_raises:
  "(\<exists>records. fst (extract_homework drv now target_date s) = Inr records)
   \<and> fst (extract_homework drv now target_date s)
       = (case fst (extract_homework_body drv now target_date s) of
            Inl e \<Rightarrow> Inr [] | Inr records \<Rightarrow> Inr records)"
proof -
  obtain r s' t where b: "extract_homework_body drv now target_date s = (r, s', t)"
    by (cases "extract_homework_body drv now target_date s") auto
  show ?thesis
    by (cases r) (simp_all add: extract_homework_def io_try_def io_return_def b)
qed

text \<open>
  Claim C3, as the specification has it, fails on the broken homework page: the rows
  of the table are the two rows of the page, after the first row the list holds one
  record, reading the cells of the second row raises, and \<open>extract_homework\<close> returns
  the empty list, not the list with that record.
\<close>

theorem extract_homework_partial_counterexample:
  "fst (all_of (homework_page True) (Inside example_table TABLE_BODY_ROWS) ())
     = Inr [example_row 0, example_row 1]
   \<and> fst (extract_rows (homework_page True) (ascii ''21/01/2026'') [example_row 0] [] ())
       = Inr [example_item]
   \<and> fst (extract_rows (homework_page True) (ascii ''21/01/2026'') [example_row 1]
            [example_item] ())
       = Inl DriverError
   \<and> fst (extract_homework (homework_page True)
            \<lparr>year = 2026, month = 1, day = 21, micros = 0\<rparr> None ())
       = Inr []"
  by (simp add: example_all_rows example_first_row example_second_row_broken
      example_homework_broken del: extract_rows.simps One_nat_def)





section \<open>Properties of login\<close>

lemma io_attempt_returns: "\<exists>s' t. io_attempt m s = (Inr (), s', t)"
proof -
  obtain r s1 t1 where m: "m s = (r, s1, t1)" by (cases "m s") auto
  show ?thesis
    by (cases r) (simp_all add: io_attempt_def io_try_def io_seq_def io_bind_def io_return_def m)
qed

lemma io_seq_result:
  "m s = (Inr x, s1, t1) \<Longrightarrow> k s1 = (r, s2, t2) \<Longrightarrow> io_seq m k s = (r, s2, t1 @ t2)"
  by (simp add: io_seq_def io_bind_def)

lemma debug_login_failure_returns: "\<exists>s' t. debug_login_failure drv s = (Inr (), s', t)"
proof -
  let ?capture = "io_seq (title drv)
             (io_bind (text_content drv (Locator BODY)) (\<lambda>body_text.
                if truthy body_text
                then debug_keywords drv (str_of body_text) (take 3 ERROR_KEYWORDS)
                else io_return ()))"
  obtain s1 t1 where a: "io_attempt ?capture s = (Inr (), s1, t1)"
    using io_attempt_returns [of ?capture s] by auto
  obtain s2 t2 where b: "io_attempt (perform drv Screenshot) s1 = (Inr (), s2, t2)"
    using io_attempt_returns [of "perform drv Screenshot" s1] by auto
  show ?thesis
    unfolding debug_login_failure_def
    using io_seq_result [where m = "io_attempt ?capture"
            and k = "io_attempt (perform drv Screenshot)", OF a b]
    by blast
qed

lemma login_handler_returns:
  "\<exists>s' t. io_seq (io_attempt (debug_login_failure drv)) (io_return False) s = (Inr False, s', t)"
proof -
  obtain s1 t1 where a: "io_attempt (debug_login_failure drv) s = (Inr (), s1, t1)"
    using io_attempt_returns [of "debug_login_failure drv" s] by auto
  have "io_return False s1 = (Inr False, s1, [])" by (simp add: io_return_def)
  from io_seq_result [where m = "io_attempt (debug_login_failure drv)"
         and k = "io_return False", OF a this]
  show ?thesis by blast
qed

text \<open>
  Claim C1, as the code has it: \<open>login\<close> never raises, from any page and any state.
  When nothing in its body raises it returns what the body returns; when anything in
  the body raises, the errors of the lookups of the fields and of the login button
  among it, it returns \<open>False\<close>. The diagnostic capture always returns.
\<close>

theorem login_never_raises:
  "(\<exists>ok. fst (login drv is_ci username password s) = Inr ok)
   \<and> fst (login drv is_ci username password s)
       = (case fst (login_body drv is_ci username password s) of
            Inl e \<Rightarrow> Inr False | Inr ok \<Rightarrow> Inr ok)
   \<and> (\<exists>s' t. debug_login_failure drv s = (Inr (), s', t))"
proof -
  obtain r s1 t1 where b: "login_body drv is_ci username password s = (r, s1, t1)"
    by (cases "login_body drv is_ci username password s") auto
  obtain s2 t2 where h:
    "io_seq (io_attempt (debug_login_failure drv)) (io_return False) s1 = (Inr False, s2, t2)"
    using login_handler_returns [of drv s1] by auto
  have "fst (login drv is_ci username password s)
       = (case fst (login_body drv is_ci username password s) of
            Inl e \<Rightarrow> Inr False | Inr ok \<Rightarrow> Inr ok)"
    by (cases r) (simp_all add: login_def io_try_def b h)
  moreover from this have "\<exists>ok. fst (login drv is_ci username password s) = Inr ok"
    by (cases "fst (login_body drv is_ci username password s)") auto
  ultimately show ?thesis using debug_login_failure_returns [of drv s] by simp
qed

text \<open>
  Claim C1, as the specification has it, fails on the bare login page. Where the
  lookups by role raise, \<open>_find_username_field\<close> raises its error, the body of
  \<open>login\<close> raises it, and \<open>login\<close> returns \<open>False\<close>. Where they answer,
  \<open>_find_login_button\<close> raises its error, the body raises it, and \<open>login\<close> returns
  \<open>False\<close>.
\<close>

theorem login_field_not_found_counterexample:
  "fst (find_username_field (bare_login_page False) ())
     = Inl (Exception ''Could not find username field'')
   \<and> fst (login_body (bare_login_page False) False (ascii ''user'') (ascii ''secret'') ())
       = Inl (Exception ''Could not find username field'')
   \<and> fst (login (bare_login_page False) False (ascii ''user'') (ascii ''secret'') ()) = Inr False
   \<and> fst (find_login_button (bare_login_page True) ())
       = Inl (Exception ''Could not find login button (may have matched a tab instead)'')
   \<and> fst (login_body (bare_login_page True) False (ascii ''user'') (ascii ''secret'') ())
       = Inl (Exception ''Could not find login button (may have matched a tab instead)'')
   \<and> fst (login (bare_login_page True) False (ascii ''user'') (ascii ''secret'') ()) = Inr False"
  by code_simp

section \<open>Properties of get_today_homework\<close>

text \<open>
  Claim C8: when a credential is missing or empty, and so when both are,
  \<open>get_today_homework\<close> raises \<open>ValueError\<close> at once: the page is as it was and
  the trace is empty, so that Playwright has not been started, no browser launched
  and no address gone to.
\<close>

theorem get_today_homework_without_credentials:
  "\<not> truthy username \<or> \<not> truthy password \<Longrightarrow>
   get_today_homework drv is_ci now username password date_text s = (Inl ValueError, s, [])"
  by (auto simp: get_today_homework_def io_raise_def)

theorem get_today_homework_without_credentials_witness:
  "get_today_homework (bare_login_page True) False
       \<lparr>year = 2026, month = 1, day = 21, micros = 0\<rparr> None None None ()
     = (Inl ValueError, (), [])
   \<and> get_today_homework (bare_login_page True) False
         \<lparr>year = 2026, month = 1, day = 21, micros = 0\<rparr> (Some []) (Some [])
         (Some (ascii ''21-01-2026'')) ()
       = (Inl ValueError, (), [])"
  using get_today_homework_without_credentials
          [of None None "bare_login_page True" False
              "\<lparr>year = 2026, month = 1, day = 21, micros = 0\<rparr>" None "()"]
        get_today_homework_without_credentials
          [of "Some []" "Some []" "bare_login_page True" False
              "\<lparr>year = 2026, month = 1, day = 21, micros = 0\<rparr>" "Some (ascii ''21-01-2026'')" "()"]
  by (simp add: truthy_def)

end
